theory Spec2Isabelle
  imports Main
begin

section \<open>INGRES chatbot backend: the question-resolution pipeline of server.js\<close>

text \<open>
  The development embeds the resolution pipeline of \<^verbatim>\<open>src/server/server.js\<close>: the helpers
  \<^verbatim>\<open>esc\<close> and \<^verbatim>\<open>collapseWs\<close>, the temporal parsers, the place resolver, the SQL builder
  and the \<^verbatim>\<open>/api/answer\<close> handler up to the point where the rows are known.

  Conventions of the embedding.
  \<^item> A JavaScript string is a \<^typ>\<open>string\<close>: the ASCII characters are single bytes, any other
    character is the sequence of its UTF-8 bytes (all of them outside the ASCII range).
    The character classes of the regular expressions (\<^verbatim>\<open>\d\<close>, \<^verbatim>\<open>\w\<close>, \<^verbatim>\<open>[A-Za-z0-9]\<close>) and
    the case folding of the \<^verbatim>\<open>i\<close> flag only concern ASCII characters in JavaScript too.
    Whitespace (\<^verbatim>\<open>\s\<close>, \<^verbatim>\<open>trim\<close>, the blanks that \<^verbatim>\<open>parseInt\<close> skips) also takes Unicode
    spaces in JavaScript: \<open>ascii_ws\<close> rewrites each of them into an ASCII whitespace
    character before such a function reads a text, and \<open>is_space\<close> decides from there.
    \<^verbatim>\<open>toLowerCase\<close> folds the ASCII letters and the two characters outside ASCII whose lower
    case has an ASCII letter; the lower case of any other letter lies outside ASCII, where
    no pattern of the program looks, and the letter keeps its bytes.
  \<^item> A value that the code takes from parsed JSON or prints into a template is a \<^verbatim>\<open>jsval\<close>.
    A number \<open>JNum n\<close> is an integer \<open>n\<close>; it stands for a JavaScript number when its
    magnitude is below \<open>10^21\<close>, where JavaScript prints all the digits, and a year read from
    the store is exact below \<open>2^53\<close>. Fractions are outside the model. The statements that
    print a number or read the latest year say so in their hypotheses.
  \<^item> A name field (level, state, district, category) is a \<^typ>\<open>string option\<close>, \<^term>\<open>None\<close>
    standing for \<^verbatim>\<open>undefined\<close> and \<^verbatim>\<open>null\<close>, which the code never tells apart.
  \<^item> The fact table \<^verbatim>\<open>gw_assessment_core\<close> is a list of rows; the execution of a built
    statement and the corrective service are parameters of the handler.
\<close>

subsection \<open>JavaScript values\<close>

datatype jsval = JUndefined | JNull | JBool bool | JNum int | JNaN | JStr string

text \<open>Truthiness, as used by \<^verbatim>\<open>&&\<close>, \<^verbatim>\<open>||\<close>, \<^verbatim>\<open>!\<close> and the conditional operator.\<close>

fun truthy :: "jsval \<Rightarrow> bool" where
  "truthy JUndefined = False"
| "truthy JNull = False"
| "truthy (JBool b) = b"
| "truthy (JNum n) = (n \<noteq> 0)"
| "truthy JNaN = False"
| "truthy (JStr s) = (s \<noteq> [])"

definition digit_char :: "nat \<Rightarrow> char" where
  "digit_char d = ''0123456789'' ! d"

function show_nat :: "nat \<Rightarrow> string" where
  "show_nat n = (if n < 10 then [digit_char n] else show_nat (n div 10) @ [digit_char (n mod 10)])"
  by pat_completeness auto
termination
  by (relation "measure id") auto

declare show_nat.simps [simp del]

definition show_int :: "int \<Rightarrow> string" where
  "show_int i = (if i < 0 then CHR ''-'' # show_nat (nat (- i)) else show_nat (nat i))"

text \<open>What a template literal prints for \<^verbatim>\<open>${v}\<close>.\<close>

fun tpl :: "jsval \<Rightarrow> string" where
  "tpl JUndefined = ''undefined''"
| "tpl JNull = ''null''"
| "tpl (JBool b) = (if b then ''true'' else ''false'')"
| "tpl (JNum n) = show_int n"
| "tpl JNaN = ''NaN''"
| "tpl (JStr s) = s"

subsection \<open>Helpers\<close>

definition quote :: char where
  "quote = CHR 0x27"

definition newline :: char where
  "newline = CHR 0x0A"

text \<open>\<^verbatim>\<open>s.replaceAll("'", "''")\<close>\<close>

fun replaceAll_quote :: "string \<Rightarrow> string" where
  "replaceAll_quote [] = []"
| "replaceAll_quote (c # cs) =
     (if c = quote then quote # quote # replaceAll_quote cs else c # replaceAll_quote cs)"

text \<open>\<^verbatim>\<open>const esc = (s) => (s || "").replaceAll("'", "''");\<close>\<close>

definition esc :: "string option \<Rightarrow> string" where
  "esc s = replaceAll_quote (case s of None \<Rightarrow> [] | Some x \<Rightarrow> x)"

subsection \<open>The store\<close>

record row =
  rstate :: string
  rdistrict :: string
  ryear :: int

fun max_year :: "int list \<Rightarrow> int option" where
  "max_year [] = None"
| "max_year (y # ys) = Some (fold max ys y)"

text \<open>
  \<^verbatim>\<open>latestYearForState(state)\<close>: \<^verbatim>\<open>MAX(year)\<close> over the whole table when \<^verbatim>\<open>state\<close> is falsy,
  over the rows of that state otherwise; \<^verbatim>\<open>null\<close> when there is no such row.
\<close>

definition latestYearForState :: "row list \<Rightarrow> string option \<Rightarrow> int option" where
  "latestYearForState tbl st =
     (case st of
        None \<Rightarrow> max_year (map ryear tbl)
      | Some s \<Rightarrow>
          if s = [] then max_year (map ryear tbl)
          else max_year (map ryear (filter (\<lambda>r. rstate r = s) tbl)))"

subsection \<open>The structured query and the SQL builder\<close>

record place =
  level :: "string option"
  state :: "string option"
  district :: "string option"

record years =
  y1 :: jsval
  y2 :: jsval

record parsed =
  intent :: string
  place :: place
  years :: years
  category :: "string option"
  engine :: string

definition subquery_max :: string where
  "subquery_max = ''(SELECT MAX(year) FROM gw_assessment_core)''"

text \<open>The \<^verbatim>\<open>byYear\<close> constant of \<^verbatim>\<open>buildSQL\<close>.\<close>

definition byYear :: "row list \<Rightarrow> parsed \<Rightarrow> string" where
  "byYear tbl p =
     (if truthy (y1 (years p)) \<and> truthy (y2 (years p))
      then ''AND year BETWEEN '' @ tpl (y1 (years p)) @ '' AND '' @ tpl (y2 (years p))
      else ''AND year = '' @
        (case latestYearForState tbl (state (place p)) of
           Some n \<Rightarrow> show_int n
         | None \<Rightarrow> subquery_max))"

definition where_state :: "parsed \<Rightarrow> string" where
  "where_state p = ''state='' @ [quote] @ esc (state (place p)) @ [quote]"

definition where_district :: "parsed \<Rightarrow> string" where
  "where_district p =
     where_state p @ '' AND district='' @ [quote] @ esc (district (place p)) @ [quote]"

definition category_filter :: "parsed \<Rightarrow> string" where
  "category_filter p =
     (case category p of
        None \<Rightarrow> []
      | Some c \<Rightarrow> if c = [] then [] else ''AND category='' @ [quote] @ esc (Some c) @ [quote])"

definition buildSQL :: "row list \<Rightarrow> parsed \<Rightarrow> string" where
  "buildSQL tbl p =
     (if level (place p) = Some ''district'' then
        ''SELECT year, recharge_mcm, extractable_mcm, extraction_mcm, stage_pct, category''
        @ [newline] @ ''            FROM gw_assessment_core WHERE '' @ where_district p
        @ '' '' @ byYear tbl p @ '' ORDER BY year;''
      else if level (place p) = Some ''state'' then
        (if intent p = ''LIST'' then
           ''SELECT state, district, year, extractable_mcm, extraction_mcm, stage_pct, category''
           @ [newline] @ ''              FROM gw_assessment_core WHERE '' @ where_state p
           @ '' '' @ category_filter p @ '' '' @ byYear tbl p
           @ [newline] @ ''              ORDER BY stage_pct DESC LIMIT 500;''
         else
           ''SELECT state, district, year, stage_pct, category''
           @ [newline] @ ''            FROM gw_assessment_core WHERE '' @ where_state p
           @ '' '' @ byYear tbl p
           @ [newline] @ ''            ORDER BY stage_pct DESC LIMIT 500;'')
      else
        ''SELECT state, district, year, stage_pct, category''
        @ [newline] @ ''          FROM gw_assessment_core WHERE year=''
        @ (case latestYearForState tbl None of Some n \<Rightarrow> show_int n | None \<Rightarrow> ''null'')
        @ '' ORDER BY stage_pct DESC LIMIT 50;'')"

subsection \<open>Reading a statement back: the string literals of SQL\<close>

text \<open>
  SQL writes a string literal between single quotes, a quote inside it as two quotes.
  \<open>sql_literals\<close> scans a statement and returns the values of its string literals, in
  order, or \<^term>\<open>None\<close> when a literal is left open. Its first argument is \<^term>\<open>None\<close>
  outside a literal and holds the value read so far inside one.
\<close>

fun sql_literals :: "string option \<Rightarrow> string \<Rightarrow> string list option" where
  "sql_literals None [] = Some []"
| "sql_literals (Some acc) [] = None"
| "sql_literals None (c # cs) =
     (if c = quote then sql_literals (Some []) cs else sql_literals None cs)"
| "sql_literals (Some acc) (c # cs) =
     (if c \<noteq> quote then sql_literals (Some (acc @ [c])) cs
      else (case cs of
              [] \<Rightarrow> Some [acc]
            | d # ds \<Rightarrow>
                if d = quote then sql_literals (Some (acc @ [quote])) ds
                else map_option ((#) acc) (sql_literals None cs)))"

definition name_of :: "string option \<Rightarrow> string" where
  "name_of s = (case s of None \<Rightarrow> [] | Some x \<Rightarrow> x)"

definition prints_no_quote :: "jsval \<Rightarrow> bool" where
  "prints_no_quote v = (case v of JStr s \<Rightarrow> quote \<notin> set s | _ \<Rightarrow> True)"


subsection \<open>Characters and strings\<close>

definition is_digit :: "char \<Rightarrow> bool" where
  "is_digit c = (c \<in> set ''0123456789'')"

definition is_alpha :: "char \<Rightarrow> bool" where
  "is_alpha c = (c \<in> set ''ABCDEFGHIJKLMNOPQRSTUVWXYZabcdefghijklmnopqrstuvwxyz'')"

text \<open>The class \<^verbatim>\<open>[A-Za-z0-9]\<close>, and \<^verbatim>\<open>\w\<close>, which adds the underscore.\<close>

definition is_alnum :: "char \<Rightarrow> bool" where
  "is_alnum c = (is_alpha c \<or> is_digit c)"

definition is_word :: "char \<Rightarrow> bool" where
  "is_word c = (is_alnum c \<or> c = CHR ''_'')"

text \<open>\<^verbatim>\<open>\s\<close>: tab, line feed, vertical tab, form feed, carriage return, space.\<close>

definition is_space :: "char \<Rightarrow> bool" where
  "is_space c = (c \<in> set [CHR 0x09, CHR 0x0A, CHR 0x0B, CHR 0x0C, CHR 0x0D, CHR 0x20])"

definition lower_char :: "char \<Rightarrow> char" where
  "lower_char c =
     (case map_of (zip ''ABCDEFGHIJKLMNOPQRSTUVWXYZ'' ''abcdefghijklmnopqrstuvwxyz'') c of
        Some d \<Rightarrow> d
      | None \<Rightarrow> c)"

text \<open>
  \<^verbatim>\<open>s.toLowerCase()\<close>. U+0130 (bytes C4 B0) becomes \<open>i\<close> followed by U+0307 (bytes CC 87),
  and U+212A (bytes E2 84 AA) becomes \<open>k\<close>.
\<close>

fun toLowerCase :: "string \<Rightarrow> string" where
  "toLowerCase (a # b # c # r) =
     (if a = CHR 0xC4 \<and> b = CHR 0xB0 then CHR ''i'' # CHR 0xCC # CHR 0x87 # toLowerCase (c # r)
      else if a = CHR 0xE2 \<and> b = CHR 0x84 \<and> c = CHR 0xAA then CHR ''k'' # toLowerCase r
      else lower_char a # toLowerCase (b # c # r))"
| "toLowerCase [a, b] =
     (if a = CHR 0xC4 \<and> b = CHR 0xB0 then [CHR ''i'', CHR 0xCC, CHR 0x87]
      else [lower_char a, lower_char b])"
| "toLowerCase [a] = [lower_char a]"
| "toLowerCase [] = []"

text \<open>Two characters are equal under the \<^verbatim>\<open>i\<close> flag.\<close>

definition ci_eq :: "char \<Rightarrow> char \<Rightarrow> bool" where
  "ci_eq a b = (lower_char a = lower_char b)"

fun starts_with :: "string \<Rightarrow> string \<Rightarrow> bool" where
  "starts_with s [] = True"
| "starts_with [] (p # ps) = False"
| "starts_with (c # cs) (p # ps) = (c = p \<and> starts_with cs ps)"

text \<open>\<^verbatim>\<open>s.includes(p)\<close>\<close>

fun js_includes :: "string \<Rightarrow> string \<Rightarrow> bool" where
  "js_includes [] p = (p = [])"
| "js_includes (c # cs) p = (starts_with (c # cs) p \<or> js_includes cs p)"

text \<open>
  The Unicode spaces of \<^verbatim>\<open>\s\<close>: U+00A0 in two bytes; in three bytes U+1680, U+2000 to
  U+200A, U+202F, U+205F, U+3000, U+FEFF, and the line terminators U+2028 and U+2029.
\<close>

definition ws2 :: "char \<Rightarrow> char \<Rightarrow> bool" where
  "ws2 a b = (a = CHR 0xC2 \<and> b = CHR 0xA0)"

definition lt3 :: "char \<Rightarrow> char \<Rightarrow> char \<Rightarrow> bool" where
  "lt3 a b c = (a = CHR 0xE2 \<and> b = CHR 0x80 \<and> (c = CHR 0xA8 \<or> c = CHR 0xA9))"

definition ws3 :: "char \<Rightarrow> char \<Rightarrow> char \<Rightarrow> bool" where
  "ws3 a b c =
     ((a = CHR 0xE1 \<and> b = CHR 0x9A \<and> c = CHR 0x80)
      \<or> (a = CHR 0xE2 \<and> b = CHR 0x80 \<and>
          c \<in> set [CHR 0x80, CHR 0x81, CHR 0x82, CHR 0x83, CHR 0x84, CHR 0x85, CHR 0x86, CHR 0x87,
                     CHR 0x88, CHR 0x89, CHR 0x8A, CHR 0xAF])
      \<or> (a = CHR 0xE2 \<and> b = CHR 0x81 \<and> c = CHR 0x9F)
      \<or> (a = CHR 0xE3 \<and> b = CHR 0x80 \<and> c = CHR 0x80)
      \<or> (a = CHR 0xEF \<and> b = CHR 0xBB \<and> c = CHR 0xBF))"

text \<open>
  Every Unicode space becomes an ASCII whitespace character, a line terminator the line
  feed and any other the space. What \<^verbatim>\<open>\s\<close>, \<^verbatim>\<open>\S\<close>, \<^verbatim>\<open>.\<close>, \<^verbatim>\<open>\b\<close> and the character
  classes say of a text is what they say of its rewriting.
\<close>

fun ascii_ws :: "string \<Rightarrow> string" where
  "ascii_ws (a # b # c # r) =
     (if lt3 a b c then CHR 0x0A # ascii_ws r
      else if ws3 a b c then CHR 0x20 # ascii_ws r
      else if ws2 a b then CHR 0x20 # ascii_ws (c # r)
      else a # ascii_ws (b # c # r))"
| "ascii_ws [a, b] = (if ws2 a b then [CHR 0x20] else [a, b])"
| "ascii_ws [a] = [a]"
| "ascii_ws [] = []"

text \<open>\<^verbatim>\<open>s.trim()\<close>, for a text without Unicode spaces.\<close>

definition trim :: "string \<Rightarrow> string" where
  "trim s = rev (dropWhile is_space (rev (dropWhile is_space s)))"

text \<open>
  \<^verbatim>\<open>s.replace(/\s+/g, " ")\<close>, for a text without Unicode spaces: every run of
  whitespace becomes one space. The flag tells whether the previous character was
  whitespace.
\<close>

fun squeeze :: "bool \<Rightarrow> string \<Rightarrow> string" where
  "squeeze prev [] = []"
| "squeeze prev (c # cs) =
     (if is_space c then (if prev then squeeze True cs else CHR '' '' # squeeze True cs)
      else c # squeeze False cs)"

text \<open>\<^verbatim>\<open>const collapseWs = (s) => (s || "").replace(/\s+/g, " ").trim();\<close>\<close>

definition collapseWs :: "string \<Rightarrow> string" where
  "collapseWs s = trim (squeeze False (ascii_ws s))"

text \<open>\<^verbatim>\<open>s.replace(/\s+/g, "")\<close>\<close>

definition strip_ws :: "string \<Rightarrow> string" where
  "strip_ws s = filter (\<lambda>c. \<not> is_space c) (ascii_ws s)"

text \<open>
  The word boundary \<^verbatim>\<open>\b\<close> between the character before a position and the one after
  it; \<^term>\<open>None\<close> is the start or the end of the input.
\<close>

fun word_opt :: "char option \<Rightarrow> bool" where
  "word_opt None = False"
| "word_opt (Some c) = is_word c"

fun alnum_opt :: "char option \<Rightarrow> bool" where
  "alnum_opt None = False"
| "alnum_opt (Some c) = is_alnum c"

fun head_opt :: "string \<Rightarrow> char option" where
  "head_opt [] = None"
| "head_opt (c # cs) = Some c"

definition wb :: "char option \<Rightarrow> char option \<Rightarrow> bool" where
  "wb prev nxt = (word_opt prev \<noteq> word_opt nxt)"

subsection \<open>CategoryExtractor: the category function of the answer handler\<close>

definition hi_ati :: string where
  "hi_ati = [CHR 0xE0, CHR 0xA4, CHR 0x85, CHR 0xE0, CHR 0xA4, CHR 0xA4, CHR 0xE0, CHR 0xA4, CHR 0xBF]"

definition hi_gambhir :: string where
  "hi_gambhir = [CHR 0xE0, CHR 0xA4, CHR 0x97, CHR 0xE0, CHR 0xA4, CHR 0x82, CHR 0xE0, CHR 0xA4, CHR 0xAD,
     CHR 0xE0, CHR 0xA5, CHR 0x80, CHR 0xE0, CHR 0xA4, CHR 0xB0]"

definition hi_ardh :: string where
  "hi_ardh = [CHR 0xE0, CHR 0xA4, CHR 0x85, CHR 0xE0, CHR 0xA4, CHR 0xB0, CHR 0xE0, CHR 0xA5, CHR 0x8D,
     CHR 0xE0, CHR 0xA4, CHR 0xA7]"

definition hi_surakshit :: string where
  "hi_surakshit = [CHR 0xE0, CHR 0xA4, CHR 0xB8, CHR 0xE0, CHR 0xA5, CHR 0x81, CHR 0xE0, CHR 0xA4, CHR 0xB0,
     CHR 0xE0, CHR 0xA4, CHR 0x95, CHR 0xE0, CHR 0xA5, CHR 0x8D, CHR 0xE0, CHR 0xA4, CHR 0xB7,
     CHR 0xE0, CHR 0xA4, CHR 0xBF, CHR 0xE0, CHR 0xA4, CHR 0xA4]"

text \<open>
  The immediately invoked function that fills \<^verbatim>\<open>category\<close> in the handler; the Hindi
  triggers are the UTF-8 bytes of the words of the source.
\<close>

definition category_of :: "string \<Rightarrow> string option" where
  "category_of question =
     (let s = toLowerCase question in
      if js_includes s ''over-exploited'' \<or> js_includes s ''overexploited'' \<or> js_includes s hi_ati
      then Some ''Over-Exploited''
      else if js_includes s ''critical'' \<or> js_includes s hi_gambhir then Some ''Critical''
      else if js_includes s ''semi'' \<or> js_includes s hi_ardh then Some ''Semi-Critical''
      else if js_includes s ''safe'' \<or> js_includes s hi_surakshit then Some ''Safe''
      else None)"

subsection \<open>TemporalResolver\<close>

text \<open>A JavaScript number that may be \<^verbatim>\<open>NaN\<close>: \<^term>\<open>None\<close> is \<^verbatim>\<open>NaN\<close>.\<close>

type_synonym jsnum = "int option"

definition num :: "jsnum \<Rightarrow> jsval" where
  "num x = (case x of None \<Rightarrow> JNaN | Some n \<Rightarrow> JNum n)"

definition math_min :: "jsnum \<Rightarrow> jsnum \<Rightarrow> jsnum" where
  "math_min a b = (case (a, b) of (Some x, Some y) \<Rightarrow> Some (min x y) | _ \<Rightarrow> None)"

definition math_max :: "jsnum \<Rightarrow> jsnum \<Rightarrow> jsnum" where
  "math_max a b = (case (a, b) of (Some x, Some y) \<Rightarrow> Some (max x y) | _ \<Rightarrow> None)"

definition digit_val :: "char \<Rightarrow> int" where
  "digit_val c = int (of_char c) - 48"

text \<open>
  \<^verbatim>\<open>parseInt(s, 10)\<close>: leading whitespace, an optional sign, then the longest run of digits;
  \<^verbatim>\<open>NaN\<close> when there is no digit.
\<close>

definition parseInt :: "string \<Rightarrow> jsnum" where
  "parseInt s =
     (let t = dropWhile is_space (ascii_ws s);
          neg = (case t of [] \<Rightarrow> False | c # _ \<Rightarrow> c = CHR ''-'');
          u = (case t of [] \<Rightarrow> [] | c # r \<Rightarrow> if c = CHR ''-'' \<or> c = CHR ''+'' then r else t);
          ds = takeWhile is_digit u
      in if ds = [] then None
         else Some ((if neg then - 1 else 1) * foldl (\<lambda>acc c. 10 * acc + digit_val c) 0 ds))"

text \<open>\<^verbatim>\<open>(19|20)\d{2}\<close> on four characters.\<close>

definition year4 :: "char \<Rightarrow> char \<Rightarrow> char \<Rightarrow> char \<Rightarrow> bool" where
  "year4 a b c d =
     (((a = CHR ''1'' \<and> b = CHR ''9'') \<or> (a = CHR ''2'' \<and> b = CHR ''0'')) \<and> is_digit c \<and> is_digit d)"

fun match_year :: "string \<Rightarrow> (string \<times> string) option" where
  "match_year (a # b # c # d # r) = (if year4 a b c d then Some ([a, b, c, d], r) else None)"
| "match_year _ = None"

definition en_dash :: string where
  "en_dash = [CHR 0xE2, CHR 0x80, CHR 0x93]"

text \<open>
  The separator \<^verbatim>\<open>-|to|U+2013\<close> under the \<^verbatim>\<open>i\<close> flag at the head of the input: the number
  of characters it takes, 0 when there is none.
\<close>

definition sep_len :: "string \<Rightarrow> nat" where
  "sep_len s =
     (if starts_with s ''-'' then 1
      else if starts_with (map lower_char (take 2 s)) ''to'' then 2
      else if starts_with s en_dash then 3
      else 0)"

text \<open>
  \<^verbatim>\<open>/(19|20)\d{2}\s*(?:-|to|U+2013)\s*(19|20)\d{2}/i\<close> at the head of the input; the result is
  the matched text. The separator and a digit are no whitespace, so each \<^verbatim>\<open>\s*\<close> takes the
  whole run.
\<close>

definition match_range :: "string \<Rightarrow> string option" where
  "match_range s =
     (case match_year s of
        None \<Rightarrow> None
      | Some (a, r1) \<Rightarrow>
          let w1 = takeWhile is_space r1; r2 = dropWhile is_space r1 in
          if sep_len r2 = 0 then None
          else
            let sp = take (sep_len r2) r2; r3 = drop (sep_len r2) r2;
                w2 = takeWhile is_space r3; r4 = dropWhile is_space r3 in
            (case match_year r4 of
               None \<Rightarrow> None
             | Some (b, _) \<Rightarrow> Some (a @ w1 @ sp @ w2 @ b)))"

text \<open>The leftmost match of a pattern: \<^verbatim>\<open>t.match(re)\<close> without the \<^verbatim>\<open>g\<close> flag.\<close>

fun first_match :: "(string \<Rightarrow> 'a option) \<Rightarrow> string \<Rightarrow> 'a option" where
  "first_match m [] = m []"
| "first_match m (c # cs) = (case m (c # cs) of Some x \<Rightarrow> Some x | None \<Rightarrow> first_match m cs)"

text \<open>\<^verbatim>\<open>s.split(/-|to|U+2013/i)\<close>; the first argument is the piece being read.\<close>

fun split_sep :: "string \<Rightarrow> string \<Rightarrow> string list" where
  "split_sep cur [] = [cur]"
| "split_sep cur (c # cs) =
     (if sep_len (c # cs) = 0 then split_sep (cur @ [c]) cs
      else cur # split_sep [] (drop (sep_len (c # cs) - 1) cs))"

text \<open>\<^verbatim>\<open>t.match(/(19|20)\d{2}/g)\<close>: the matches from left to right, none overlapping.\<close>

fun scan_years :: "string \<Rightarrow> string list" where
  "scan_years (a # b # c # d # r) =
     (if year4 a b c d then [a, b, c, d] # scan_years r else scan_years (b # c # d # r))"
| "scan_years _ = []"

text \<open>An element of a destructured array: \<^verbatim>\<open>undefined\<close>, \<^verbatim>\<open>NaN\<close> as a number, when missing.\<close>

definition elem :: "jsnum list \<Rightarrow> nat \<Rightarrow> jsnum" where
  "elem xs i = (if i < length xs then xs ! i else None)"

definition no_years :: years where
  "no_years = \<lparr>y1 = JUndefined, y2 = JUndefined\<rparr>"

definition parseYearsAbsolute :: "string \<Rightarrow> years" where
  "parseYearsAbsolute t =
     (case first_match match_range (ascii_ws t) of
        Some range0 \<Rightarrow>
          let ps = map (\<lambda>s. parseInt (trim s)) (split_sep [] range0);
              a = elem ps 0; b = elem ps 1
          in \<lparr>y1 = num (math_min a b), y2 = num (math_max a b)\<rparr>
      | None \<Rightarrow>
          (case map parseInt (scan_years t) of
             [] \<Rightarrow> no_years
           | [y] \<Rightarrow> \<lparr>y1 = num y, y2 = num y\<rparr>
           | y # ys \<Rightarrow> \<lparr>y1 = num (fold math_min ys y), y2 = num (fold math_max ys y)\<rparr>))"

text \<open>The object \<^verbatim>\<open>m\<close> of \<^verbatim>\<open>wordsToNum\<close>.\<close>

definition number_table :: "(string \<times> int) list" where
  "number_table =
     [(''one'', 1), (''two'', 2), (''three'', 3), (''four'', 4), (''five'', 5), (''six'', 6),
      (''seven'', 7), (''eight'', 8), (''nine'', 9), (''ten'', 10),
      (''1'', 1), (''2'', 2), (''3'', 3), (''4'', 4), (''5'', 5), (''6'', 6), (''7'', 7),
      (''8'', 8), (''9'', 9), (''10'', 10)]"

definition wordsToNum :: "string \<Rightarrow> int option" where
  "wordsToNum w = map_of number_table (toLowerCase w)"

text \<open>
  The end of the relative pattern, \<^verbatim>\<open>\s+years?\b\<close>, at the head of the input: whitespace,
  then \<^verbatim>\<open>year\<close>, then either an \<^verbatim>\<open>s\<close> and a word boundary, or a word boundary at once.
\<close>

definition years_tail :: "string \<Rightarrow> bool" where
  "years_tail r =
     (case r of
        [] \<Rightarrow> False
      | c # _ \<Rightarrow>
          is_space c \<and>
          (let r1 = dropWhile is_space r in
           starts_with r1 ''year'' \<and>
           (let r2 = drop 4 r1 in
            (starts_with r2 ''s'' \<and> \<not> word_opt (head_opt (drop 1 r2))) \<or> \<not> word_opt (head_opt r2))))"

definition number_words :: "string list" where
  "number_words =
     [''one'', ''two'', ''three'', ''four'', ''five'', ''six'', ''seven'', ''eight'', ''nine'', ''ten'']"

text \<open>
  The second group, \<^verbatim>\<open>(\d+|one|...|ten)\<close>, followed by the end of the pattern: the
  alternatives in the order of the source, the first whose continuation matches.
\<close>

definition match_count :: "string \<Rightarrow> string option" where
  "match_count r =
     (let ds = takeWhile is_digit r in
      if ds \<noteq> [] \<and> years_tail (dropWhile is_digit r) then Some ds
      else find (\<lambda>w. starts_with r w \<and> years_tail (drop (length w) r)) number_words)"

text \<open>
  \<^verbatim>\<open>/\b(last|past|previous|recent)\s+(\d+|one|...|ten)\s+years?\b/\<close> at a position, given
  the character before it; the result is the second group.
\<close>

definition rel_at :: "char option \<Rightarrow> string \<Rightarrow> string option" where
  "rel_at prev s =
     (if word_opt prev then None
      else
        (case find (\<lambda>k. starts_with s k \<and>
                      (case drop (length k) s of [] \<Rightarrow> False
                       | c # r \<Rightarrow> is_space c \<and> match_count (dropWhile is_space r) \<noteq> None))
                [''last'', ''past'', ''previous'', ''recent''] of
           None \<Rightarrow> None
         | Some k \<Rightarrow> match_count (dropWhile is_space (drop (length k) s))))"

fun find_rel :: "char option \<Rightarrow> string \<Rightarrow> string option" where
  "find_rel prev [] = None"
| "find_rel prev (c # cs) =
     (case rel_at prev (c # cs) of Some g \<Rightarrow> Some g | None \<Rightarrow> find_rel (Some c) cs)"

definition parseYearsRelative :: "string \<Rightarrow> int option \<Rightarrow> years option" where
  "parseYearsRelative t latestYear =
     (case find_rel None (ascii_ws (toLowerCase t)) of
        None \<Rightarrow> None
      | Some m2 \<Rightarrow>
          (case latestYear of
             None \<Rightarrow> None
           | Some latest \<Rightarrow>
               if latest = 0 then None
               else (case wordsToNum m2 of
                       None \<Rightarrow> None
                     | Some n \<Rightarrow> Some \<lparr>y1 = JNum (latest - (n - 1)), y2 = JNum latest\<rparr>)))"


subsection \<open>PlaceResolver\<close>

definition STATE_SYNONYM :: "(string \<times> string) list" where
  "STATE_SYNONYM =
     [(''TN'', ''TAMIL NADU''), (''TAMILNADU'', ''TAMIL NADU''), (''UP'', ''UTTAR PRADESH''),
      (''MP'', ''MADHYA PRADESH''), (''MH'', ''MAHARASHTRA''), (''TS'', ''TELANGANA''),
      (''AP'', ''ANDHRA PRADESH'')]"

text \<open>
  The pattern that \<^verbatim>\<open>nameRegex\<close> builds from a name is a sequence of literal alphanumeric
  characters and of gaps \<^verbatim>\<open>\s+\<close>, one for every run of other characters. The flag of
  \<open>wordish\<close> tells whether the previous character was part of such a run.
\<close>

datatype tok = Lit char | Gap

fun wordish :: "bool \<Rightarrow> string \<Rightarrow> tok list" where
  "wordish g [] = []"
| "wordish g (c # cs) =
     (if is_alnum c then Lit c # wordish False cs
      else if g then wordish True cs
      else Gap # wordish True cs)"

text \<open>
  The pattern \<open>ts\<close> followed by \<^verbatim>\<open>\b\<close>, under the \<^verbatim>\<open>i\<close> flag, at the head of the input, given
  the character before it. A gap takes one whitespace character and then either goes on
  or hands over to the rest of the pattern.
\<close>

fun match_toks :: "tok list \<Rightarrow> char option \<Rightarrow> string \<Rightarrow> bool" where
  "match_toks [] prev s = wb prev (head_opt s)"
| "match_toks (Lit p # ts) prev [] = False"
| "match_toks (Lit p # ts) prev (c # cs) = (ci_eq p c \<and> match_toks ts (Some c) cs)"
| "match_toks (Gap # ts) prev [] = False"
| "match_toks (Gap # ts) prev (c # cs) =
     (is_space c \<and> (match_toks (Gap # ts) (Some c) cs \<or> match_toks ts (Some c) cs))"

text \<open>\<^verbatim>\<open>new RegExp(`\\b${wordish}\\b`, "i").test(text)\<close>: a match at some position.\<close>

fun test_spaced :: "tok list \<Rightarrow> char option \<Rightarrow> string \<Rightarrow> bool" where
  "test_spaced ts prev [] = (wb prev None \<and> match_toks ts prev [])"
| "test_spaced ts prev (c # cs) =
     ((wb prev (Some c) \<and> match_toks ts prev (c # cs)) \<or> test_spaced ts (Some c) cs)"

text \<open>The literal \<open>pat\<close> under the \<^verbatim>\<open>i\<close> flag, followed by \<^verbatim>\<open>(?![A-Za-z0-9])\<close>.\<close>

fun match_lit :: "string \<Rightarrow> string \<Rightarrow> bool" where
  "match_lit [] s = (\<not> alnum_opt (head_opt s))"
| "match_lit (p # ps) [] = False"
| "match_lit (p # ps) (c # cs) = (ci_eq p c \<and> match_lit ps cs)"

text \<open>\<^verbatim>\<open>new RegExp(`(?<![A-Za-z0-9])${pat}(?![A-Za-z0-9])`, "i").test(text)\<close> for a literal \<open>pat\<close>.\<close>

fun test_nospace :: "string \<Rightarrow> char option \<Rightarrow> string \<Rightarrow> bool" where
  "test_nospace pat prev [] = (\<not> alnum_opt prev \<and> match_lit pat [])"
| "test_nospace pat prev (c # cs) =
     ((\<not> alnum_opt prev \<and> match_lit pat (c # cs)) \<or> test_nospace pat (Some c) cs)"

text \<open>\<^verbatim>\<open>nameRegex\<close>: \<^verbatim>\<open>null\<close> for a blank name, else the two patterns.\<close>

definition nameRegex :: "string \<Rightarrow> (tok list \<times> string) option" where
  "nameRegex name =
     (let cleaned = trim (ascii_ws name) in
      if cleaned = [] then None
      else Some (wordish False cleaned, filter is_alnum cleaned))"

text \<open>
  \<^verbatim>\<open>containsName\<close>. After the length check the name is not blank, so the destructuring
  of \<^verbatim>\<open>nameRegex(n)\<close> never meets \<^verbatim>\<open>null\<close>.
\<close>

definition containsName :: "string \<Rightarrow> string \<Rightarrow> bool" where
  "containsName text name =
     (if length (filter is_alnum name) < 4 then False
      else (case nameRegex name of
              None \<Rightarrow> False
            | Some (spaced, nospace) \<Rightarrow>
                test_spaced spaced None (ascii_ws text)
                \<or> test_nospace nospace None (strip_ws text)))"

text \<open>
  \<^verbatim>\<open>String(x).length\<close> counts UTF-16 code units: one for every character of up to three
  UTF-8 bytes, two for a character of four bytes.
\<close>

definition js_length :: "string \<Rightarrow> nat" where
  "js_length s =
     length (filter (\<lambda>c. (of_char c :: nat) < 0x80 \<or> 0xC0 \<le> (of_char c :: nat)) s)
     + length (filter (\<lambda>c. 0xF0 \<le> (of_char c :: nat)) s)"

text \<open>\<^verbatim>\<open>SELECT DISTINCT\<close>: the rows in the order of the table, each once.\<close>

definition select_distinct :: "'a list \<Rightarrow> 'a list" where
  "select_distinct xs = rev (remdups (rev xs))"

text \<open>The loops that keep the strictly longest name whose matcher fires.\<close>

fun best_district ::
  "string \<Rightarrow> (string \<times> string) list \<Rightarrow> (string \<times> string) option \<Rightarrow> (string \<times> string) option" where
  "best_district text [] bestD = bestD"
| "best_district text (r # rs) bestD =
     best_district text rs
       (if containsName text (snd r) then
          (case bestD of
             None \<Rightarrow> Some r
           | Some b \<Rightarrow> if js_length (snd r) > js_length (snd b) then Some r else bestD)
        else bestD)"

fun best_state :: "string \<Rightarrow> string list \<Rightarrow> string option \<Rightarrow> string option" where
  "best_state text [] bestS = bestS"
| "best_state text (s # ss) bestS =
     best_state text ss
       (if containsName text s then
          (case bestS of
             None \<Rightarrow> Some s
           | Some b \<Rightarrow> if js_length s > js_length b then Some s else bestS)
        else bestS)"

definition place_state :: "string \<Rightarrow> place" where
  "place_state s = \<lparr>level = Some ''state'', state = Some s, district = None\<rparr>"

definition place_district :: "string \<Rightarrow> string \<Rightarrow> place" where
  "place_district s d = \<lparr>level = Some ''district'', state = Some s, district = Some d\<rparr>"

definition place_unknown :: place where
  "place_unknown = \<lparr>level = Some ''unknown'', state = None, district = None\<rparr>"

text \<open>
  The last loop of \<^verbatim>\<open>resolvePlaceSmart\<close> puts the state name, whitespace removed, into a
  pattern as it is. For a name of alphanumeric characters the pattern is a literal; for any
  other name its meaning is that of the regular-expression engine, the parameter \<open>rx\<close>:
  \<open>rx ns text\<close> is the verdict on \<open>text\<close> of the pattern built around \<open>ns\<close>, \<^term>\<open>None\<close> when
  the engine rejects the pattern with a \<^verbatim>\<open>SyntaxError\<close>. The result \<^term>\<open>None\<close> of the
  loop is that exception.
\<close>

fun state_nospace ::
  "(string \<Rightarrow> string \<Rightarrow> bool option) \<Rightarrow> string \<Rightarrow> string list \<Rightarrow> place option" where
  "state_nospace rx textNoSpace [] = Some place_unknown"
| "state_nospace rx textNoSpace (s # ss) =
     (let ns = strip_ws s in
      case (if list_all is_alnum ns then Some (test_nospace ns None textNoSpace)
            else rx ns textNoSpace) of
        None \<Rightarrow> None
      | Some True \<Rightarrow> Some (place_state s)
      | Some False \<Rightarrow> state_nospace rx textNoSpace ss)"

definition synonym_of :: "string \<Rightarrow> string option" where
  "synonym_of text =
     map_option snd (find (\<lambda>kv. test_spaced (map Lit (fst kv)) None text) STATE_SYNONYM)"

definition resolvePlaceSmart ::
  "(string \<Rightarrow> string \<Rightarrow> bool option) \<Rightarrow> row list \<Rightarrow> string \<Rightarrow> place option" where
  "resolvePlaceSmart rx tbl question =
     (let text = collapseWs question; textNoSpace = strip_ws text in
      case synonym_of text of
        Some s \<Rightarrow> Some (place_state s)
      | None \<Rightarrow>
          let districts = select_distinct (map (\<lambda>r. (rstate r, rdistrict r)) tbl) in
          (case best_district text districts None of
             Some bestD \<Rightarrow> Some (place_district (fst bestD) (snd bestD))
           | None \<Rightarrow>
               let states = select_distinct (map rstate tbl) in
               (case best_state text states None of
                  Some bestS \<Rightarrow> Some (place_state bestS)
                | None \<Rightarrow> state_nospace rx textNoSpace states)))"

subsection \<open>IntentClassifier\<close>

definition hi_ke_mukable :: string where
  "hi_ke_mukable = [CHR 0xE0, CHR 0xA4, CHR 0x95, CHR 0xE0, CHR 0xA5, CHR 0x87, CHR 0x20,
     CHR 0xE0, CHR 0xA4, CHR 0xAE, CHR 0xE0, CHR 0xA5, CHR 0x81, CHR 0xE0, CHR 0xA4, CHR 0x95,
     CHR 0xE0, CHR 0xA4, CHR 0xBE, CHR 0xE0, CHR 0xA4, CHR 0xAC, CHR 0xE0, CHR 0xA4, CHR 0xB2,
     CHR 0xE0, CHR 0xA5, CHR 0x87]"

definition hi_se :: string where
  "hi_se = [CHR 0xE0, CHR 0xA4, CHR 0xB8, CHR 0xE0, CHR 0xA5, CHR 0x87]"

definition hi_tak :: string where
  "hi_tak = [CHR 0xE0, CHR 0xA4, CHR 0xA4, CHR 0xE0, CHR 0xA4, CHR 0x95]"

definition hi_dikhao :: string where
  "hi_dikhao = [CHR 0xE0, CHR 0xA4, CHR 0xA6, CHR 0xE0, CHR 0xA4, CHR 0xBF, CHR 0xE0, CHR 0xA4, CHR 0x96,
     CHR 0xE0, CHR 0xA4, CHR 0xBE, CHR 0xE0, CHR 0xA4, CHR 0x93]"

text \<open>
  One of the words \<open>alts\<close> at the head of the input, followed by \<^verbatim>\<open>\b\<close>, or by \<^verbatim>\<open>(\b|$)\<close>
  when \<open>e\<close> holds.
\<close>

definition alt_at :: "bool \<Rightarrow> string list \<Rightarrow> string \<Rightarrow> bool" where
  "alt_at e alts s =
     list_ex (\<lambda>w. starts_with s w \<and>
                  (let r = drop (length w) s in wb (Some (last w)) (head_opt r) \<or> (e \<and> r = [])))
       alts"

text \<open>
  \<^verbatim>\<open>/\b(w1|w2|...)\b/.test(s)\<close>; with \<open>b\<close> the pattern starts with \<^verbatim>\<open>(^|\b)\<close>, with \<open>e\<close> it ends
  with \<^verbatim>\<open>(\b|$)\<close>.
\<close>

fun test_alts :: "bool \<Rightarrow> bool \<Rightarrow> string list \<Rightarrow> char option \<Rightarrow> string \<Rightarrow> bool" where
  "test_alts b e alts prev [] = False"
| "test_alts b e alts prev (c # cs) =
     (((wb prev (Some c) \<or> (b \<and> prev = None)) \<and> alt_at e alts (c # cs))
      \<or> test_alts b e alts (Some c) cs)"

definition intentOf :: "string \<Rightarrow> string" where
  "intentOf t =
     (let s = toLowerCase t in
      if test_alts True True [''vs'', ''compare'', hi_ke_mukable] None s then ''COMPARE''
      else if test_alts False False
                [''since'', ''between'', ''trend'', ''from'', ''to'', hi_se, hi_tak, ''trend of'',
                 ''trend'', ''trends'', ''change''] None s then ''TREND''
      else if test_alts False False
                [''over'', ''critical'', ''semi'', ''safe'', hi_ati, hi_gambhir, hi_surakshit] None s
              \<and> test_alts False False [''list'', ''show'', hi_dikhao] None s then ''LIST''
      else ''DATA'')"

subsection \<open>The corrective service\<close>

text \<open>
  The object that \<^verbatim>\<open>JSON.parse\<close> makes of the reply of the service; a field that is
  missing, \<^verbatim>\<open>null\<close> or empty is \<^term>\<open>None\<close>. A reply that does not parse is the object
  without fields.
\<close>

record gem_out =
  g_intent :: "string option"
  g_place :: "place option"
  g_years :: "years option"
  g_category :: "string option"

definition geminiParse :: "gem_out \<Rightarrow> parsed" where
  "geminiParse out =
     \<lparr>intent = (case g_intent out of None \<Rightarrow> ''DATA'' | Some i \<Rightarrow> if i = [] then ''DATA'' else i),
      place = (case g_place out of None \<Rightarrow> place_unknown | Some pl \<Rightarrow> pl),
      years = (case g_years out of None \<Rightarrow> no_years | Some ys \<Rightarrow> ys),
      category = (case g_category out of None \<Rightarrow> None | Some c \<Rightarrow> if c = [] then None else Some c),
      engine = ''gemini''\<rparr>"

text \<open>\<^verbatim>\<open>{ ...parsed, ...llm, engine: "gemini" }\<close>: every field of \<open>llm\<close> is an own property.\<close>

definition merge :: "parsed \<Rightarrow> parsed \<Rightarrow> parsed" where
  "merge p llm =
     p\<lparr>intent := intent llm, place := place llm, years := years llm,
       category := category llm, engine := ''gemini''\<rparr>"

subsection \<open>ResolutionOrchestrator: the answer handler\<close>

text \<open>\<^verbatim>\<open>if (!parsed.years?.y1 && rel) parsed.years = rel;\<close>\<close>

definition apply_rel :: "parsed \<Rightarrow> years option \<Rightarrow> parsed" where
  "apply_rel p rel =
     (case rel of
        None \<Rightarrow> p
      | Some r \<Rightarrow> if truthy (y1 (years p)) then p else p\<lparr>years := r\<rparr>)"

definition relative_pass :: "row list \<Rightarrow> string \<Rightarrow> parsed \<Rightarrow> parsed" where
  "relative_pass tbl question p =
     apply_rel p (parseYearsRelative question (latestYearForState tbl (state (place p))))"

text \<open>Step 1 of the handler; \<^term>\<open>None\<close> when the place resolver raises.\<close>

definition deterministic_parse ::
  "(string \<Rightarrow> string \<Rightarrow> bool option) \<Rightarrow> row list \<Rightarrow> string \<Rightarrow> parsed option" where
  "deterministic_parse rx tbl question =
     (case resolvePlaceSmart rx tbl question of
        None \<Rightarrow> None
      | Some pl \<Rightarrow>
          Some \<lparr>intent = intentOf question, place = pl, years = parseYearsAbsolute question,
                category = category_of question, engine = ''deterministic''\<rparr>)"

text \<open>
  Step 3: the corrective parse when the place is unknown. \<^verbatim>\<open>GEMINI_KEY\<close> is never empty,
  the source gives it a default. The reply \<open>g\<close> is \<^term>\<open>None\<close> when the call raises, which
  the handler swallows.
\<close>

definition corrective_parse :: "row list \<Rightarrow> string \<Rightarrow> gem_out option \<Rightarrow> parsed \<Rightarrow> parsed" where
  "corrective_parse tbl question g p =
     (if level (place p) = Some ''unknown'' then
        (case g of
           None \<Rightarrow> p
         | Some out \<Rightarrow> relative_pass tbl question (merge p (geminiParse out)))
      else p)"

text \<open>
  \<^verbatim>\<open>/;.*\S/\<close> on a text without Unicode spaces: a semicolon, then a character that is no
  whitespace before the next line terminator, where the dot stops.
\<close>

fun guard_scan :: "string \<Rightarrow> bool" where
  "guard_scan [] = False"
| "guard_scan (c # cs) =
     (if c = CHR '';''
      then list_ex (\<lambda>d. \<not> is_space d) (takeWhile (\<lambda>d. d \<noteq> CHR 0x0A \<and> d \<noteq> CHR 0x0D) cs)
           \<or> guard_scan cs
      else guard_scan cs)"

text \<open>\<^verbatim>\<open>/;.*\S/.test(sql)\<close>\<close>

definition injection_guard :: "string \<Rightarrow> bool" where
  "injection_guard sql = guard_scan (ascii_ws sql)"

text \<open>The existence probes of the recovery.\<close>

definition probe :: "row list \<Rightarrow> place \<Rightarrow> bool" where
  "probe tbl pl =
     (if level pl = Some ''state'' then
        (case state pl of None \<Rightarrow> False | Some s \<Rightarrow> list_ex (\<lambda>r. rstate r = s) tbl)
      else if level pl = Some ''district'' then
        (case state pl of
           None \<Rightarrow> False
         | Some s \<Rightarrow>
             (case district pl of
                None \<Rightarrow> False
              | Some d \<Rightarrow> list_ex (\<lambda>r. rstate r = s \<and> rdistrict r = d) tbl))
      else False)"

text \<open>
  The variables of the handler from step 4 on: the structured query, the statement, the
  rows, the statements handed to the store so far, and whether an exception has left
  the handler.
\<close>

record 'r run_state =
  cur_parsed :: parsed
  cur_sql :: string
  cur_rows :: "'r list"
  executed :: "string list"
  raised :: bool

text \<open>
  A corrective reply taken over: the merge, then the relative pass against the anchor of
  the new place.
\<close>

definition accept_reply :: "row list \<Rightarrow> string \<Rightarrow> parsed \<Rightarrow> parsed \<Rightarrow> parsed" where
  "accept_reply tbl question p llm = relative_pass tbl question (merge p llm)"

text \<open>
  Step 5, first part: the corrective reply is taken over only when the probe finds its
  place. The store may raise on the rebuilt statement (\<open>run\<close> gives \<^term>\<open>None\<close>); the
  \<^verbatim>\<open>catch\<close> swallows that, with \<^verbatim>\<open>parsed\<close> and \<^verbatim>\<open>sql\<close> already reassigned.
\<close>

definition recover_corrective ::
  "row list \<Rightarrow> (string \<Rightarrow> 'r list option) \<Rightarrow> string \<Rightarrow> gem_out option \<Rightarrow> 'r run_state \<Rightarrow> 'r run_state" where
  "recover_corrective tbl run question g st =
     (case g of
        None \<Rightarrow> st
      | Some out \<Rightarrow>
          let llm = geminiParse out in
          if probe tbl (place llm) then
            (let p = accept_reply tbl question (cur_parsed st) llm;
                 sql = buildSQL tbl p;
                 st' = st\<lparr>cur_parsed := p, cur_sql := sql, executed := executed st @ [sql]\<rparr>
             in case run sql of None \<Rightarrow> st' | Some rows \<Rightarrow> st'\<lparr>cur_rows := rows\<rparr>)
          else st)"

text \<open>\<^verbatim>\<open>parsed.years = { y1: latest, y2: latest }\<close> with the latest year of the place.\<close>

definition latest_window :: "row list \<Rightarrow> parsed \<Rightarrow> parsed" where
  "latest_window tbl p =
     (let latest = (case latestYearForState tbl (state (place p)) of
                      None \<Rightarrow> JNull | Some n \<Rightarrow> JNum n)
      in p\<lparr>years := \<lparr>y1 = latest, y2 = latest\<rparr>\<rparr>)"

text \<open>
  Step 5, second part: with no rows yet and a relative window found in step 2, both
  bounds become the latest year of the place. Here a raising store ends the request.
\<close>

definition recover_latest ::
  "row list \<Rightarrow> (string \<Rightarrow> 'r list option) \<Rightarrow> years option \<Rightarrow> 'r run_state \<Rightarrow> 'r run_state" where
  "recover_latest tbl run rel st =
     (if cur_rows st = [] \<and> rel \<noteq> None then
        (let p = latest_window tbl (cur_parsed st);
             sql = buildSQL tbl p;
             st' = st\<lparr>cur_parsed := p, cur_sql := sql, executed := executed st @ [sql]\<rparr>
         in case run sql of None \<Rightarrow> st'\<lparr>raised := True\<rparr> | Some rows \<Rightarrow> st'\<lparr>cur_rows := rows\<rparr>)
      else st)"

datatype 'r response =
  BadRequest string
| ServerError
| Answer parsed string "'r list"

text \<open>
  Steps 4 and 5 for a structured query \<open>p\<close> and the window \<open>rel\<close> of step 2. The second
  component of the result lists the statements handed to the store, in order.
\<close>

definition build_and_run ::
  "row list \<Rightarrow> (string \<Rightarrow> 'r list option) \<Rightarrow> string \<Rightarrow> gem_out option \<Rightarrow> years option \<Rightarrow> parsed
     \<Rightarrow> 'r response \<times> string list" where
  "build_and_run tbl run question g2 rel p =
     (let sql = buildSQL tbl p in
      if injection_guard sql then (BadRequest ''Invalid SQL'', [])
      else
        (case run sql of
           None \<Rightarrow> (ServerError, [sql])
         | Some rows \<Rightarrow>
             if rows \<noteq> [] then (Answer p sql rows, [sql])
             else
               (let st = \<lparr>cur_parsed = p, cur_sql = sql, cur_rows = rows, executed = [sql],
                          raised = False\<rparr>;
                    st' = recover_latest tbl run rel (recover_corrective tbl run question g2 st)
                in if raised st' then (ServerError, executed st')
                   else (Answer (cur_parsed st') (cur_sql st') (cur_rows st'), executed st'))))"

text \<open>
  The handler of \<^verbatim>\<open>POST /api/answer\<close> up to the rows: \<open>g1\<close> and \<open>g2\<close> are the replies of
  the corrective service to the call of step 3 and to the call of step 5.
\<close>

definition answer ::
  "(string \<Rightarrow> string \<Rightarrow> bool option) \<Rightarrow> row list \<Rightarrow> (string \<Rightarrow> 'r list option)
     \<Rightarrow> gem_out option \<Rightarrow> gem_out option \<Rightarrow> string \<Rightarrow> 'r response \<times> string list" where
  "answer rx tbl run g1 g2 body =
     (let question = collapseWs body in
      if question = [] then (BadRequest ''Missing text'', [])
      else
        (case deterministic_parse rx tbl question of
           None \<Rightarrow> (ServerError, [])
         | Some p0 \<Rightarrow>
             let rel = parseYearsRelative question (latestYearForState tbl (state (place p0)));
                 p1 = apply_rel p0 rel;
                 p2 = corrective_parse tbl question g1 p1
             in build_and_run tbl run question g2 rel p2))"

subsection \<open>Notions used to state the properties\<close>

text \<open>
  The words of the absolute extraction, independent of the matchers above. A year text is
  four characters, \<open>19\<close> or \<open>20\<close> and two digits; \<open>decimal\<close> is the number that a run of
  digits writes.
\<close>

definition is_year_text :: "string \<Rightarrow> bool" where
  "is_year_text y =
     (length y = 4 \<and> (take 2 y = ''19'' \<or> take 2 y = ''20'') \<and> list_all is_digit (drop 2 y))"

definition decimal :: "string \<Rightarrow> int" where
  "decimal ds = foldl (\<lambda>n c. 10 * n + digit_val c) 0 ds"

text \<open>The separators of a range: the hyphen, \<open>to\<close> in either case, the en dash U+2013.\<close>

definition is_separator :: "string \<Rightarrow> bool" where
  "is_separator sp = (sp \<in> set [''-'', ''to'', ''To'', ''tO'', ''TO'', en_dash])"

text \<open>
  A range starts at the head of a text: a year text, whitespace, a separator, whitespace,
  a year text, then anything.
\<close>

definition range_head :: "string \<Rightarrow> bool" where
  "range_head s =
     (\<exists>ya w1 sp w2 yb post. s = ya @ w1 @ sp @ w2 @ yb @ post
        \<and> is_year_text ya \<and> list_all is_space w1 \<and> is_separator sp
        \<and> list_all is_space w2 \<and> is_year_text yb)"

definition year_head :: "string \<Rightarrow> bool" where
  "year_head s = is_year_text (take 4 s)"

text \<open>
  The year texts found in a text, from left to right: the leftmost one, then those found
  in what follows it.
\<close>

inductive year_matches :: "string \<Rightarrow> string list \<Rightarrow> bool" where
  none: "(\<forall>k\<le>length t. \<not> year_head (drop k t)) \<Longrightarrow> year_matches t []"
| step: "is_year_text y \<Longrightarrow> (\<forall>k<length pre. \<not> year_head (drop k (pre @ y @ post)))
         \<Longrightarrow> year_matches post ys \<Longrightarrow> year_matches (pre @ y @ post) (y # ys)"

text \<open>
  The standalone years of the specification: the maximal runs of digits of a text that
  are year texts.
\<close>

fun digit_runs :: "string \<Rightarrow> string \<Rightarrow> string list" where
  "digit_runs cur [] = [cur]"
| "digit_runs cur (c # cs) =
     (if is_digit c then digit_runs (cur @ [c]) cs else cur # digit_runs [] cs)"

definition standalone_years :: "string \<Rightarrow> string list" where
  "standalone_years t = filter is_year_text (digit_runs [] t)"

definition rel_keywords :: "string list" where
  "rel_keywords = [''last'', ''past'', ''previous'', ''recent'']"

definition rel_counts :: "string list" where
  "rel_counts = map fst number_table"

text \<open>
  The year bounds of a structured query are in order: both are numbers with
  \<open>y1 \<le> y2\<close>, or both are absent.
\<close>

definition absent :: "jsval \<Rightarrow> bool" where
  "absent v = (v = JUndefined \<or> v = JNull)"

definition years_ok :: "years \<Rightarrow> bool" where
  "years_ok ys =
     ((\<exists>a b. y1 ys = JNum a \<and> y2 ys = JNum b \<and> a \<le> b) \<or> (absent (y1 ys) \<and> absent (y2 ys)))"

fun response_years :: "'r response \<Rightarrow> years option" where
  "response_years (Answer p sql rows) = Some (years p)"
| "response_years _ = None"

fun response_place :: "'r response \<Rightarrow> place option" where
  "response_place (Answer p sql rows) = Some (place p)"
| "response_place _ = None"







subsection \<open>Example inputs\<close>

definition dsouza :: string where
  "dsouza = ''D'' @ [quote] @ ''Souza''"

definition ex_quoted_query :: parsed where
  "ex_quoted_query =
     \<lparr>intent = ''DATA'',
      place = \<lparr>level = Some ''district'', state = Some ''Bihar'', district = Some dsouza\<rparr>,
      years = \<lparr>y1 = JNum 2019, y2 = JNum 2020\<rparr>,
      category = None, engine = ''deterministic''\<rparr>"

definition ex_tbl :: "row list" where
  "ex_tbl =
     [\<lparr>rstate = ''Gujarat'', rdistrict = ''Mehsana'', ryear = 2019\<rparr>,
      \<lparr>rstate = ''Gujarat'', rdistrict = ''Mehsana'', ryear = 2020\<rparr>,
      \<lparr>rstate = ''Gujarat'', rdistrict = ''Ahmedabad'', ryear = 2020\<rparr>,
      \<lparr>rstate = ''Maharashtra'', rdistrict = ''Pune'', ryear = 2020\<rparr>,
      \<lparr>rstate = ''Maharashtra'', rdistrict = ''Pune'', ryear = 2021\<rparr>,
      \<lparr>rstate = ''Maharashtra'', rdistrict = ''Pune Rural'', ryear = 2021\<rparr>]"



definition or_clause :: string where
  "or_clause = ''2020 OR '' @ [quote] @ ''a'' @ [quote] @ ''='' @ [quote] @ ''a'' @ [quote]"

definition ex_reply_string_years :: gem_out where
  "ex_reply_string_years =
     \<lparr>g_intent = Some ''DATA'', g_place = Some (place_state ''Gujarat''),
      g_years = Some \<lparr>y1 = JStr ''2019'', y2 = JStr or_clause\<rparr>,
      g_category = None\<rparr>"

definition ex_reply_reversed :: gem_out where
  "ex_reply_reversed =
     \<lparr>g_intent = Some ''TREND'', g_place = Some (place_state ''Gujarat''),
      g_years = Some \<lparr>y1 = JNum 2020, y2 = JNum 2019\<rparr>, g_category = None\<rparr>"






text \<open>A store that finds no row for any statement, and an engine that is never asked.\<close>

definition no_rows :: "string \<Rightarrow> row list option" where
  "no_rows sql = Some []"

definition no_rx :: "string \<Rightarrow> string \<Rightarrow> bool option" where
  "no_rx ns txt = None"

section \<open>Properties\<close>

subsection \<open>Printing and escaping\<close>

lemma digit_char_no_quote: "d < 10 \<Longrightarrow> digit_char d \<noteq> quote"
proof -
  assume "d < 10"
  then have "d \<in> {0,1,2,3,4,5,6,7,8,9}" by auto
  then show ?thesis by (auto simp: digit_char_def quote_def)
qed

lemma show_nat_no_quote: "quote \<notin> set (show_nat n)"
proof (induction n rule: show_nat.induct)
  case (1 n)
  show ?case
  proof (cases "n < 10")
    case True
    then show ?thesis using digit_char_no_quote[of n] by (subst show_nat.simps) simp
  next
    case False
    then show ?thesis using 1 digit_char_no_quote[of "n mod 10"]
      by (subst show_nat.simps) simp
  qed
qed

lemma show_int_no_quote: "quote \<notin> set (show_int i)"
  by (simp add: show_int_def show_nat_no_quote) (simp add: quote_def)

lemma tpl_no_quote: "prints_no_quote v \<Longrightarrow> quote \<notin> set (tpl v)"
  by (cases v) (auto simp: prints_no_quote_def show_int_no_quote, auto simp: quote_def)

lemma byYear_no_quote:
  "prints_no_quote (y1 (years p)) \<Longrightarrow> prints_no_quote (y2 (years p)) \<Longrightarrow> quote \<notin> set (byYear tbl p)"
  by (auto simp: byYear_def tpl_no_quote show_int_no_quote subquery_max_def split: option.splits, auto simp: quote_def)





lemma sql_literals_skip: "quote \<notin> set u \<Longrightarrow> sql_literals None (u @ r) = sql_literals None r"
  by (induction u) auto

lemma sql_literals_read:
  "r = [] \<or> hd r \<noteq> quote \<Longrightarrow>
   sql_literals (Some acc) (replaceAll_quote s @ quote # r) =
     map_option ((#) (acc @ s)) (sql_literals None r)"
proof (induction s arbitrary: acc)
  case Nil
  then show ?case by (cases r) auto
next
  case (Cons c s)
  then show ?case by (cases "replaceAll_quote s @ quote # r") auto
qed

lemma sql_literals_lit:
  "quote \<notin> set u \<Longrightarrow> r = [] \<or> hd r \<noteq> quote \<Longrightarrow>
   sql_literals None (u @ [quote] @ esc s @ [quote] @ r) =
     map_option ((#) (name_of s)) (sql_literals None r)"
  using sql_literals_read[of r "[]" "name_of s"]
  by (simp add: sql_literals_skip esc_def name_of_def)


lemma sql_literals_none: "quote \<notin> set u \<Longrightarrow> sql_literals None u = Some []"
  using sql_literals_skip[of u "[]"] by simp

lemma lits_district:
  assumes nq: "quote \<notin> set (byYear tbl p)" and lv: "level (place p) = Some ''district''"
  shows "sql_literals None (buildSQL tbl p) = Some [name_of (state (place p)), name_of (district (place p))]"
proof -
  define U where "U = ''SELECT year, recharge_mcm, extractable_mcm, extraction_mcm, stage_pct, category''
        @ [newline] @ ''            FROM gw_assessment_core WHERE state=''"
  define T where "T = '' '' @ byYear tbl p @ '' ORDER BY year;''"
  define R where "R = '' AND district='' @ [quote] @ esc (district (place p)) @ [quote] @ T"
  have shape: "buildSQL tbl p = U @ [quote] @ esc (state (place p)) @ [quote] @ R"
    using lv by (simp add: buildSQL_def where_district_def where_state_def U_def R_def T_def)
  have U: "quote \<notin> set U" by (simp add: U_def quote_def newline_def)
  have T: "quote \<notin> set T" using nq by (simp add: T_def) (simp add: quote_def)
  have R: "R = [] \<or> hd R \<noteq> quote" by (simp add: R_def quote_def)
  have T': "T = [] \<or> hd T \<noteq> quote" by (simp add: T_def quote_def)
  have "sql_literals None R = map_option ((#) (name_of (district (place p)))) (sql_literals None T)"
    unfolding R_def by (rule sql_literals_lit[OF _ T']) (simp add: quote_def)
  also have "\<dots> = Some [name_of (district (place p))]"
    by (simp add: sql_literals_none[OF T])
  finally have r: "sql_literals None R = Some [name_of (district (place p))]" .
  show ?thesis
    unfolding shape by (simp only: sql_literals_lit[OF U R] r) simp
qed


lemma lits_state_plain:
  assumes nq: "quote \<notin> set (byYear tbl p)" and lv: "level (place p) = Some ''state''"
    and nl: "intent p \<noteq> ''LIST''"
  shows "sql_literals None (buildSQL tbl p) = Some [name_of (state (place p))]"
proof -
  define U where "U = ''SELECT state, district, year, stage_pct, category''
           @ [newline] @ ''            FROM gw_assessment_core WHERE state=''"
  define R where "R = '' '' @ byYear tbl p
           @ [newline] @ ''            ORDER BY stage_pct DESC LIMIT 500;''"
  have shape: "buildSQL tbl p = U @ [quote] @ esc (state (place p)) @ [quote] @ R"
    using lv nl by (simp add: buildSQL_def where_state_def U_def R_def)
  have U: "quote \<notin> set U" by (simp add: U_def quote_def newline_def)
  have R: "quote \<notin> set R" using nq by (simp add: R_def) (simp add: quote_def newline_def)
  have R': "R = [] \<or> hd R \<noteq> quote" by (simp add: R_def quote_def)
  show ?thesis
    unfolding shape by (simp only: sql_literals_lit[OF U R'] sql_literals_none[OF R]) simp
qed

lemma lits_state_list:
  assumes nq: "quote \<notin> set (byYear tbl p)" and lv: "level (place p) = Some ''state''"
    and li: "intent p = ''LIST''"
  shows "sql_literals None (buildSQL tbl p) =
           Some (name_of (state (place p)) # (if name_of (category p) = [] then [] else [name_of (category p)]))"
proof -
  define U where "U = ''SELECT state, district, year, extractable_mcm, extraction_mcm, stage_pct, category''
           @ [newline] @ ''              FROM gw_assessment_core WHERE state=''"
  define T where "T = '' '' @ byYear tbl p
           @ [newline] @ ''              ORDER BY stage_pct DESC LIMIT 500;''"
  define R where "R = '' '' @ category_filter p @ T"
  have shape: "buildSQL tbl p = U @ [quote] @ esc (state (place p)) @ [quote] @ R"
    using lv li by (simp add: buildSQL_def where_state_def U_def R_def T_def)
  have U: "quote \<notin> set U" by (simp add: U_def quote_def newline_def)
  have T: "quote \<notin> set T" using nq by (simp add: T_def) (simp add: quote_def newline_def)
  have T': "T = [] \<or> hd T \<noteq> quote" by (simp add: T_def quote_def)
  have R': "R = [] \<or> hd R \<noteq> quote" by (simp add: R_def quote_def)
  have r: "sql_literals None R = Some (if name_of (category p) = [] then [] else [name_of (category p)])"
  proof (cases "name_of (category p) = []")
    case True
    then have "category_filter p = []"
      by (auto simp: category_filter_def name_of_def split: option.splits)
    then have "quote \<notin> set R" using T by (simp add: R_def) (simp add: quote_def)
    then show ?thesis using True by (simp add: sql_literals_none)
  next
    case False
    then obtain c where c: "category p = Some c" "c \<noteq> []"
      by (auto simp: name_of_def split: option.splits)
    have "R = '' AND category='' @ [quote] @ esc (Some c) @ [quote] @ T"
      using c by (simp add: R_def category_filter_def)
    moreover have "sql_literals None ('' AND category='' @ [quote] @ esc (Some c) @ [quote] @ T)
        = map_option ((#) (name_of (Some c))) (sql_literals None T)"
      by (rule sql_literals_lit[OF _ T']) (simp add: quote_def)
    ultimately show ?thesis using c False by (simp add: sql_literals_none[OF T])
  qed
  show ?thesis
    unfolding shape by (simp only: sql_literals_lit[OF U R'] r) simp
qed

lemma lits_other:
  assumes "level (place p) \<noteq> Some ''district''" "level (place p) \<noteq> Some ''state''"
  shows "sql_literals None (buildSQL tbl p) = Some []"
proof -
  define U where "U = ''SELECT state, district, year, stage_pct, category''
        @ [newline] @ ''          FROM gw_assessment_core WHERE year=''"
  define X where "X = (case latestYearForState tbl None of Some n \<Rightarrow> show_int n | None \<Rightarrow> ''null'')"
  define T where "T = '' ORDER BY stage_pct DESC LIMIT 50;''"
  have shape: "buildSQL tbl p = U @ X @ T"
    using assms by (simp add: buildSQL_def U_def X_def T_def)
  have U: "quote \<notin> set U" by (simp add: U_def quote_def newline_def)
  have T: "quote \<notin> set T" by (simp add: T_def quote_def)
  have X: "quote \<notin> set X"
  proof (cases "latestYearForState tbl None")
    case None
    then show ?thesis by (simp add: X_def quote_def)
  next
    case (Some n)
    then show ?thesis by (simp add: X_def show_int_no_quote)
  qed
  have "quote \<notin> set (buildSQL tbl p)"
    unfolding shape using U X T by simp
  then show ?thesis by (rule sql_literals_none)
qed

lemma replaceAll_quote_concat:
  "replaceAll_quote s = concat (map (\<lambda>c. if c = quote then [quote, quote] else [c]) s)"
  by (induction s) auto

text \<open>
  C1. Every place or category name that \<open>buildSQL\<close> interpolates is written with each
  quote doubled: \<open>esc\<close> replaces every quote character by two, and reading the built
  statement back with the literal syntax of SQL yields exactly the given names as its
  string literals, at district level the state and the district, at state level the state
  and, for a LIST query with a category, the category. The year bounds are assumed to
  print without a quote character, as every number does.
\<close>

theorem buildSQL_literals_escaped:
  assumes "prints_no_quote (y1 (years p))" and "prints_no_quote (y2 (years p))"
  shows "esc (Some s) = concat (map (\<lambda>c. if c = quote then [quote, quote] else [c]) s)
    \<and> (level (place p) = Some ''district'' \<longrightarrow>
         sql_literals None (buildSQL tbl p)
           = Some [name_of (state (place p)), name_of (district (place p))])
    \<and> (level (place p) = Some ''state'' \<longrightarrow>
         sql_literals None (buildSQL tbl p)
           = Some (name_of (state (place p)) #
                   (if intent p = ''LIST'' \<and> name_of (category p) \<noteq> []
                    then [name_of (category p)] else [])))"
proof -
  have nq: "quote \<notin> set (byYear tbl p)"
    using assms by (rule byYear_no_quote)
  have e: "esc (Some s) = concat (map (\<lambda>c. if c = quote then [quote, quote] else [c]) s)"
    by (simp add: esc_def replaceAll_quote_concat)
  have d: "level (place p) = Some ''district'' \<longrightarrow>
         sql_literals None (buildSQL tbl p)
           = Some [name_of (state (place p)), name_of (district (place p))]"
    using lits_district[OF nq] by blast
  have st: "level (place p) = Some ''state'' \<longrightarrow>
         sql_literals None (buildSQL tbl p)
           = Some (name_of (state (place p)) #
                   (if intent p = ''LIST'' \<and> name_of (category p) \<noteq> []
                    then [name_of (category p)] else []))"
    using lits_state_plain[OF nq] lits_state_list[OF nq] by (cases "intent p = ''LIST''") auto
  from e d st show ?thesis by blast
qed

theorem buildSQL_literals_escaped_witness:
  "prints_no_quote (JNum 2019) \<and> prints_no_quote (JNum 2020)
   \<and> esc (Some dsouza) = ''D'' @ [quote, quote] @ ''Souza''
   \<and> sql_literals None (buildSQL [] ex_quoted_query) = Some [''Bihar'', dsouza]"
proof -
  have h: "prints_no_quote (y1 (years ex_quoted_query))" "prints_no_quote (y2 (years ex_quoted_query))"
    by (simp_all add: ex_quoted_query_def prints_no_quote_def)
  have l: "level (place ex_quoted_query) = Some ''district''"
    by (simp add: ex_quoted_query_def)
  show ?thesis
    using buildSQL_literals_escaped[OF h, of dsouza "[]"] l
    by (simp add: prints_no_quote_def ex_quoted_query_def name_of_def dsouza_def quote_def)
qed

subsection \<open>The SQL builder and the year scope\<close>

lemma starts_with_append: "starts_with (p @ b) p"
  by (induction p) auto

lemma js_includes_here: "js_includes (p @ b) p"
  by (cases "p @ b") (auto simp: starts_with_append, metis starts_with_append)

lemma js_includes_append: "js_includes (a @ p @ b) p"
proof (induction a)
  case Nil
  show ?case using js_includes_here by simp
next
  case (Cons x a)
  then show ?case by simp
qed







lemma byYear_between:
  "truthy (y1 (years p)) \<Longrightarrow> truthy (y2 (years p)) \<Longrightarrow>
   byYear tbl p = ''AND year BETWEEN '' @ tpl (y1 (years p)) @ '' AND '' @ tpl (y2 (years p))"
  by (simp add: byYear_def)


lemma buildSQL_district:
  "level (place p) = Some ''district'' \<Longrightarrow>
   buildSQL tbl p =
     ''SELECT year, recharge_mcm, extractable_mcm, extraction_mcm, stage_pct, category''
     @ [newline] @ ''            FROM gw_assessment_core WHERE state='' @ [quote]
     @ esc (state (place p)) @ [quote] @ '' AND district='' @ [quote]
     @ esc (district (place p)) @ [quote] @ '' '' @ byYear tbl p @ '' ORDER BY year;''"
  by (simp add: buildSQL_def where_district_def where_state_def)

lemma buildSQL_state_includes:
  assumes "level (place p) = Some ''state''"
  shows "js_includes (buildSQL tbl p) (byYear tbl p)"
proof (cases "intent p = ''LIST''")
  case True
  define a where "a = ''SELECT state, district, year, extractable_mcm, extraction_mcm, stage_pct, category''
           @ [newline] @ ''              FROM gw_assessment_core WHERE '' @ where_state p
           @ '' '' @ category_filter p @ '' ''"
  define b where "b = [newline] @ ''              ORDER BY stage_pct DESC LIMIT 500;''"
  have "buildSQL tbl p = a @ byYear tbl p @ b"
    using assms True by (simp add: buildSQL_def a_def b_def)
  then show ?thesis by (simp only: js_includes_append)
next
  case False
  define a where "a = ''SELECT state, district, year, stage_pct, category''
           @ [newline] @ ''            FROM gw_assessment_core WHERE '' @ where_state p @ '' ''"
  define b where "b = [newline] @ ''            ORDER BY stage_pct DESC LIMIT 500;''"
  have "buildSQL tbl p = a @ byYear tbl p @ b"
    using assms False by (simp add: buildSQL_def a_def b_def)
  then show ?thesis by (simp only: js_includes_append)
qed












text \<open>
  C10. The year bounds are printed into the statement as they are: a string bound appears
  verbatim, with no escaping, and the years of a corrective reply reach the structured
  query unchanged.
\<close>

theorem years_interpolated_verbatim:
  "(truthy (y1 (years p)) \<and> truthy (y2 (years p)) \<longrightarrow>
      byYear tbl p = ''AND year BETWEEN '' @ tpl (y1 (years p)) @ '' AND '' @ tpl (y2 (years p)))
   \<and> tpl (JStr s) = s
   \<and> (level (place p) = Some ''district'' \<or> level (place p) = Some ''state'' \<longrightarrow>
        js_includes (buildSQL tbl p) (byYear tbl p))
   \<and> years (geminiParse out) = (case g_years out of None \<Rightarrow> no_years | Some ys \<Rightarrow> ys)
   \<and> years (merge q (geminiParse out)) = (case g_years out of None \<Rightarrow> no_years | Some ys \<Rightarrow> ys)"
proof -
  have d: "level (place p) = Some ''district'' \<Longrightarrow> js_includes (buildSQL tbl p) (byYear tbl p)"
  proof -
    assume l: "level (place p) = Some ''district''"
    define a where "a = ''SELECT year, recharge_mcm, extractable_mcm, extraction_mcm, stage_pct, category''
     @ [newline] @ ''            FROM gw_assessment_core WHERE state='' @ [quote]
     @ esc (state (place p)) @ [quote] @ '' AND district='' @ [quote]
     @ esc (district (place p)) @ [quote] @ '' ''"
    have "buildSQL tbl p = a @ byYear tbl p @ '' ORDER BY year;''"
      by (simp add: buildSQL_district[OF l] a_def)
    then show ?thesis by (simp only: js_includes_append)
  qed
  have g: "years (geminiParse out) = (case g_years out of None \<Rightarrow> no_years | Some ys \<Rightarrow> ys)"
    by (simp add: geminiParse_def)
  have m: "years (merge q (geminiParse out)) = (case g_years out of None \<Rightarrow> no_years | Some ys \<Rightarrow> ys)"
    by (simp add: merge_def geminiParse_def)
  show ?thesis
    using d buildSQL_state_includes[of p tbl] byYear_between[of p tbl] g m by auto
qed

theorem years_interpolated_verbatim_witness:
  "years (geminiParse ex_reply_string_years) = \<lparr>y1 = JStr ''2019'', y2 = JStr or_clause\<rparr>
   \<and> js_includes (buildSQL ex_tbl (geminiParse ex_reply_string_years))
        (''AND year BETWEEN 2019 AND 2020 OR '' @ [quote] @ ''a'' @ [quote] @ ''='' @ [quote] @ ''a'' @ [quote])
   \<and> sql_literals None (buildSQL ex_tbl (geminiParse ex_reply_string_years)) = Some [''Gujarat'', ''a'', ''a'']"
proof -
  let ?p = "geminiParse ex_reply_string_years"
  have y: "years ?p = \<lparr>y1 = JStr ''2019'', y2 = JStr or_clause\<rparr>"
    using years_interpolated_verbatim[of ?p ex_tbl "[]" ex_reply_string_years ?p]
    by (simp add: ex_reply_string_years_def)
  have t: "truthy (y1 (years ?p)) \<and> truthy (y2 (years ?p))"
    by (simp add: y or_clause_def)
  have l: "level (place ?p) = Some ''district'' \<or> level (place ?p) = Some ''state''"
    by (simp add: geminiParse_def ex_reply_string_years_def place_state_def)
  have b: "byYear ex_tbl ?p = ''AND year BETWEEN 2019 AND 2020 OR '' @ [quote] @ ''a'' @ [quote] @ ''='' @ [quote] @ ''a'' @ [quote]"
    using years_interpolated_verbatim[of ?p ex_tbl "[]" ex_reply_string_years ?p] t
    by (simp add: y or_clause_def)
  have i: "js_includes (buildSQL ex_tbl ?p) (byYear ex_tbl ?p)"
    using years_interpolated_verbatim[of ?p ex_tbl "[]" ex_reply_string_years ?p] l by blast
  have s: "sql_literals None (buildSQL ex_tbl ?p) = Some [''Gujarat'', ''a'', ''a'']"
    by code_simp
  from y i s show ?thesis unfolding b by blast
qed

subsection \<open>TemporalResolver\<close>

lemma digit_not_space: "is_digit c \<Longrightarrow> \<not> is_space c"
  by (auto simp: is_digit_def is_space_def)

lemma digit_val_range: "is_digit c \<Longrightarrow> 0 \<le> digit_val c \<and> digit_val c \<le> 9"
  by (auto simp: is_digit_def digit_val_def)

lemma digit_not_sign: "is_digit c \<Longrightarrow> c \<noteq> CHR ''-'' \<and> c \<noteq> CHR ''+''"
  by (auto simp: is_digit_def)

lemma digit_not_lead:
  "is_digit c \<Longrightarrow> c \<noteq> CHR 0xC2 \<and> c \<noteq> CHR 0xE1 \<and> c \<noteq> CHR 0xE2 \<and> c \<noteq> CHR 0xE3 \<and> c \<noteq> CHR 0xEF"
  by (auto simp: is_digit_def)

lemma ascii_ws_plain:
  "CHR 0xC2 \<notin> set s \<Longrightarrow> CHR 0xE1 \<notin> set s \<Longrightarrow> CHR 0xE2 \<notin> set s \<Longrightarrow> CHR 0xE3 \<notin> set s
   \<Longrightarrow> CHR 0xEF \<notin> set s \<Longrightarrow> ascii_ws s = s"
  by (induction s rule: ascii_ws.induct) (auto simp: lt3_def ws3_def ws2_def)

lemma ascii_ws_digits: "\<forall>c\<in>set s. is_digit c \<Longrightarrow> ascii_ws s = s"
  by (rule ascii_ws_plain) (use digit_not_lead in blast)+

lemma year4_digits: "year4 a b c d \<Longrightarrow> is_digit a \<and> is_digit b \<and> is_digit c \<and> is_digit d"
  by (auto simp: year4_def is_digit_def)

lemma is_year_text_iff: "is_year_text y \<longleftrightarrow> (\<exists>a b c d. y = [a, b, c, d] \<and> year4 a b c d)"
proof
  assume h: "is_year_text y"
  then have "length y = 4" by (simp add: is_year_text_def)
  then obtain a b c d where y: "y = [a, b, c, d]"
    by (cases y; cases "tl y"; cases "tl (tl y)"; cases "tl (tl (tl y))") auto
  with h have "year4 a b c d" by (auto simp: is_year_text_def year4_def)
  with y show "\<exists>a b c d. y = [a, b, c, d] \<and> year4 a b c d" by blast
next
  assume "\<exists>a b c d. y = [a, b, c, d] \<and> year4 a b c d"
  then show "is_year_text y" by (auto simp: is_year_text_def year4_def)
qed

lemma year_text_digits: "is_year_text y \<Longrightarrow> (\<forall>c\<in>set y. is_digit c) \<and> y \<noteq> []"
  using year4_digits by (auto simp: is_year_text_iff)

lemma decimal_year:
  assumes "is_year_text y"
  shows "1900 \<le> decimal y \<and> decimal y \<le> 2099"
proof -
  obtain a b c d where y: "y = [a, b, c, d]" "year4 a b c d"
    using assms by (auto simp: is_year_text_iff)
  have dg: "is_digit c" "is_digit d" using year4_digits[OF y(2)] by auto
  have ab: "(digit_val a = 1 \<and> digit_val b = 9) \<or> (digit_val a = 2 \<and> digit_val b = 0)"
    using y(2) by (auto simp: year4_def digit_val_def)
  show ?thesis
    using ab digit_val_range[OF dg(1)] digit_val_range[OF dg(2)] by (auto simp: y(1) decimal_def)
qed

lemma parseInt_year:
  assumes "is_year_text y"
  shows "parseInt y = Some (decimal y)"
proof -
  obtain a b c d where y: "y = [a, b, c, d]" "year4 a b c d"
    using assms by (auto simp: is_year_text_iff)
  have dg: "is_digit a" "is_digit b" "is_digit c" "is_digit d"
    using year4_digits[OF y(2)] by auto
  have aw: "ascii_ws [a, b, c, d] = [a, b, c, d]"
    by (rule ascii_ws_digits) (use dg in simp)
  have ns: "\<not> is_space a" using dg(1) by (rule digit_not_space)
  have sg: "a \<noteq> CHR ''-''" "a \<noteq> CHR ''+''" using digit_not_sign[OF dg(1)] by auto
  show ?thesis
    unfolding y(1) parseInt_def aw using dg ns sg by (simp add: Let_def decimal_def)
qed

lemma match_year_iff: "match_year s = Some (y, r) \<longleftrightarrow> s = y @ r \<and> is_year_text y"
proof
  assume "match_year s = Some (y, r)"
  then show "s = y @ r \<and> is_year_text y"
    by (induction s rule: match_year.induct) (auto simp: is_year_text_iff split: if_splits)
next
  assume "s = y @ r \<and> is_year_text y"
  then show "match_year s = Some (y, r)" by (auto simp: is_year_text_iff)
qed

lemma match_year_None: "match_year s = None \<longleftrightarrow> \<not> year_head s"
proof -
  have "year_head s \<longleftrightarrow> (\<exists>y r. s = y @ r \<and> is_year_text y)"
  proof
    assume "year_head s"
    then have "s = take 4 s @ drop 4 s \<and> is_year_text (take 4 s)" by (simp add: year_head_def)
    then show "\<exists>y r. s = y @ r \<and> is_year_text y" by blast
  next
    assume "\<exists>y r. s = y @ r \<and> is_year_text y"
    then obtain y r where "s = y @ r" "is_year_text y" by blast
    moreover then have "length y = 4" by (simp add: is_year_text_def)
    ultimately show "year_head s" by (simp add: year_head_def)
  qed
  then show ?thesis using match_year_iff[of s] by (cases "match_year s") auto
qed


lemma dropWhile_all: "(\<forall>c\<in>set w. P c) \<Longrightarrow> dropWhile P (w @ r) = dropWhile P r"
  by (induction w) auto

lemma dropWhile_none: "(\<forall>c\<in>set y. \<not> P c) \<Longrightarrow> dropWhile P y = y"
  by (cases y) auto

lemma takeWhile_all: "(\<forall>c\<in>set w. P c) \<Longrightarrow> takeWhile P (w @ r) = w @ takeWhile P r"
  by (induction w) auto

lemma trim_right: "(\<forall>c\<in>set y. \<not> is_space c) \<Longrightarrow> (\<forall>c\<in>set w. is_space c) \<Longrightarrow> trim (y @ w) = y"
proof -
  assume y: "\<forall>c\<in>set y. \<not> is_space c" and w: "\<forall>c\<in>set w. is_space c"
  show ?thesis
  proof (cases "y = []")
    case True
    have dw: "dropWhile is_space w = []" using w by simp
    show ?thesis unfolding trim_def True by (simp add: dw)
  next
    case False
    then obtain c cs where c: "y = c # cs" by (cases y) auto
    then have 1: "dropWhile is_space (y @ w) = y @ w" using y by simp
    have 2: "dropWhile is_space (rev w @ rev y) = rev y"
      using dropWhile_all[of "rev w" is_space "rev y"] dropWhile_none[of "rev y" is_space] y w
      by simp
    show ?thesis using 1 2 by (simp add: trim_def)
  qed
qed

lemma trim_left: "(\<forall>c\<in>set y. \<not> is_space c) \<Longrightarrow> (\<forall>c\<in>set w. is_space c) \<Longrightarrow> trim (w @ y) = y"
proof -
  assume y: "\<forall>c\<in>set y. \<not> is_space c" and w: "\<forall>c\<in>set w. is_space c"
  have 1: "dropWhile is_space (w @ y) = y"
    using dropWhile_all[of w is_space y] dropWhile_none[of y is_space] y w by simp
  have 2: "dropWhile is_space (rev y) = rev y"
    using dropWhile_none[of "rev y" is_space] y by simp
  show ?thesis using 1 2 by (simp add: trim_def)
qed

lemma starts_with_iff: "starts_with s p \<longleftrightarrow> (\<exists>r. s = p @ r)"
  by (induction s p rule: starts_with.induct) auto

lemma digit_space_no_sep:
  assumes "is_digit c \<or> is_space c"
  shows "c \<noteq> CHR ''-''" "lower_char c \<noteq> CHR ''t''" "c \<noteq> CHR 0xE2"
proof -
  have "c \<in> set (''0123456789'' @ [CHR 0x09, CHR 0x0A, CHR 0x0B, CHR 0x0C, CHR 0x0D, CHR 0x20])"
    using assms by (auto simp: is_digit_def is_space_def)
  then have "list_ex (\<lambda>d. c = d) (''0123456789'' @ [CHR 0x09, CHR 0x0A, CHR 0x0B, CHR 0x0C, CHR 0x0D, CHR 0x20])"
    by (simp only: list_ex_iff) blast
  then have c: "c = CHR ''0'' \<or> c = CHR ''1'' \<or> c = CHR ''2'' \<or> c = CHR ''3'' \<or> c = CHR ''4''
      \<or> c = CHR ''5'' \<or> c = CHR ''6'' \<or> c = CHR ''7'' \<or> c = CHR ''8'' \<or> c = CHR ''9''
      \<or> c = CHR 0x09 \<or> c = CHR 0x0A \<or> c = CHR 0x0B \<or> c = CHR 0x0C \<or> c = CHR 0x0D \<or> c = CHR 0x20"
    by simp
  show "c \<noteq> CHR ''-''" using c by (elim disjE; simp)
  show "c \<noteq> CHR 0xE2" using c by (elim disjE; simp)
  have "lower_char c = c" using c by (elim disjE; simp add: lower_char_def)
  then show "lower_char c \<noteq> CHR ''t''" using c by (elim disjE; simp)
qed

lemma sep_len_digit_space: "is_digit c \<or> is_space c \<Longrightarrow> sep_len (c # r) = 0"
  using digit_space_no_sep[of c]
  by (simp add: sep_len_def en_dash_def)

lemma lower_t: "lower_char a = CHR ''t'' \<Longrightarrow> a = CHR ''t'' \<or> a = CHR ''T''"
  by (auto simp: lower_char_def split: if_splits)

lemma lower_o: "lower_char a = CHR ''o'' \<Longrightarrow> a = CHR ''o'' \<or> a = CHR ''O''"
  by (auto simp: lower_char_def split: if_splits)

lemma separator_sep_len:
  assumes "is_separator sp"
  shows "sp \<noteq> [] \<and> \<not> is_space (hd sp) \<and> sep_len (sp @ X) = length sp"
proof -
  have "sp = ''-'' \<or> sp = ''to'' \<or> sp = ''To'' \<or> sp = ''tO'' \<or> sp = ''TO'' \<or> sp = en_dash"
    using assms by (simp add: is_separator_def)
  then show ?thesis
    by (elim disjE; simp add: sep_len_def lower_char_def en_dash_def is_space_def)
qed

lemma sep_len_separator:
  assumes "sep_len r \<noteq> 0"
  shows "is_separator (take (sep_len r) r)"
proof -
  consider (dash) "starts_with r ''-''"
    | (to) "\<not> starts_with r ''-''" "starts_with (map lower_char (take 2 r)) ''to''"
    | (en) "\<not> starts_with r ''-''" "\<not> starts_with (map lower_char (take 2 r)) ''to''" "starts_with r en_dash"
    using assms by (auto simp: sep_len_def split: if_splits)
  then show ?thesis
  proof cases
    case dash
    then obtain r' where "r = ''-'' @ r'" by (auto simp: starts_with_iff)
    then show ?thesis by (simp add: sep_len_def is_separator_def)
  next
    case to
    then obtain r' where r': "map lower_char (take 2 r) = ''to'' @ r'" by (auto simp: starts_with_iff)
    then obtain a b r2 where r: "r = a # b # r2"
      by (cases r; cases "tl r") auto
    then have ab: "lower_char a = CHR ''t''" "lower_char b = CHR ''o''"
      using r' by auto
    have n: "sep_len r = 2" using to by (simp add: sep_len_def)
    have tk: "take (sep_len r) r = [a, b]" unfolding n by (simp add: r)
    show ?thesis unfolding tk using lower_t[OF ab(1)] lower_o[OF ab(2)] by (auto simp: is_separator_def)
  next
    case en
    then obtain r' where r: "r = en_dash @ r'" by (auto simp: starts_with_iff)
    have n: "sep_len r = 3" using en by (simp add: sep_len_def)
    have tk: "take (sep_len r) r = en_dash" unfolding n by (simp add: r en_dash_def)
    show ?thesis unfolding tk by (simp add: is_separator_def)
  qed
qed

lemma split_skip:
  "(\<forall>c\<in>set u. is_digit c \<or> is_space c) \<Longrightarrow> split_sep cur (u @ rest) = split_sep (cur @ u) rest"
  by (induction u arbitrary: cur) (auto simp: sep_len_digit_space)

lemma split_at_sep:
  assumes "sp \<noteq> []" "sep_len (sp @ X) = length sp"
  shows "split_sep cur (sp @ X) = cur # split_sep [] X"
proof -
  obtain c cs where c: "sp @ X = c # cs" using assms(1) by (cases sp) auto
  have n: "sep_len (c # cs) \<noteq> 0" using assms c by simp
  have "drop (sep_len (c # cs) - 1) cs = drop (length sp) (c # cs)"
    using assms c by (cases sp) auto
  also have "\<dots> = X" using c[symmetric] by simp
  finally show ?thesis using n c by simp
qed

lemma split_range:
  assumes "\<forall>c\<in>set ya. is_digit c" "\<forall>c\<in>set yb. is_digit c"
    "\<forall>c\<in>set w1. is_space c" "\<forall>c\<in>set w2. is_space c"
    "is_separator sp"
  shows "split_sep [] (ya @ w1 @ sp @ w2 @ yb) = [ya @ w1, w2 @ yb]"
proof -
  have 1: "split_sep [] ((ya @ w1) @ (sp @ w2 @ yb)) = split_sep ([] @ (ya @ w1)) (sp @ w2 @ yb)"
    by (rule split_skip) (use assms in auto)
  have 2: "split_sep (ya @ w1) (sp @ (w2 @ yb)) = (ya @ w1) # split_sep [] (w2 @ yb)"
    by (rule split_at_sep) (use separator_sep_len[OF assms(5), of "w2 @ yb"] in blast)+
  have 3: "split_sep [] ((w2 @ yb) @ []) = split_sep ([] @ (w2 @ yb)) []"
    by (rule split_skip) (use assms in auto)
  show ?thesis using 1 2 3 by simp
qed

lemma match_range_complete:
  assumes ya: "is_year_text ya" and yb: "is_year_text yb"
    and w1: "list_all is_space w1" and w2: "list_all is_space w2" and sp: "is_separator sp"
  shows "match_range (ya @ w1 @ sp @ w2 @ yb @ post) = Some (ya @ w1 @ sp @ w2 @ yb)"
proof -
  note s = separator_sep_len[OF sp]
  obtain c cs where spc: "sp = c # cs" "\<not> is_space c" using s by (cases sp) auto
  obtain d ds where ybd: "yb = d # ds" "\<not> is_space d"
    using year_text_digits[OF yb] digit_not_space by (cases yb) auto
  have a: "match_year (ya @ w1 @ sp @ w2 @ yb @ post) = Some (ya, w1 @ sp @ w2 @ yb @ post)"
    using ya by (simp add: match_year_iff)
  have t1: "takeWhile is_space (w1 @ sp @ w2 @ yb @ post) = w1"
    using w1 spc by (simp add: takeWhile_all list_all_iff)
  have d1: "dropWhile is_space (w1 @ sp @ w2 @ yb @ post) = sp @ w2 @ yb @ post"
    using w1 spc by (simp add: dropWhile_all list_all_iff)
  have n: "sep_len (sp @ w2 @ yb @ post) = length sp" using s by simp
  have n0: "sp \<noteq> []" using s by simp
  have t2: "takeWhile is_space (w2 @ yb @ post) = w2"
    using w2 ybd by (simp add: takeWhile_all list_all_iff)
  have d2: "dropWhile is_space (w2 @ yb @ post) = yb @ post"
    using w2 ybd by (simp add: dropWhile_all list_all_iff)
  have b: "match_year (yb @ post) = Some (yb, post)"
    using yb by (simp add: match_year_iff)
  show ?thesis
    unfolding match_range_def a by (simp add: Let_def t1 d1 n n0 t2 d2 b)
qed

lemma match_range_sound:
  assumes "match_range s = Some m"
  obtains ya w1 sp w2 yb post where "s = m @ post" "m = ya @ w1 @ sp @ w2 @ yb"
    "is_year_text ya" "is_year_text yb" "list_all is_space w1" "list_all is_space w2"
    "is_separator sp"
proof -
  obtain ya r1 where a: "match_year s = Some (ya, r1)"
    using assms by (auto simp: match_range_def split: option.splits)
  define r2 where "r2 = dropWhile is_space r1"
  have n: "sep_len r2 \<noteq> 0"
    using assms a by (auto simp: match_range_def Let_def r2_def split: option.splits if_splits)
  define sp where "sp = take (sep_len r2) r2"
  define r3 where "r3 = drop (sep_len r2) r2"
  define r4 where "r4 = dropWhile is_space r3"
  obtain yb r5 where b: "match_year r4 = Some (yb, r5)"
    using assms a n by (auto simp: match_range_def Let_def r2_def r3_def r4_def split: option.splits if_splits)
  have m: "m = ya @ takeWhile is_space r1 @ sp @ takeWhile is_space r3 @ yb"
    using assms a n b by (auto simp: match_range_def Let_def r2_def r3_def r4_def sp_def split: option.splits if_splits)
  have s1: "s = ya @ r1" "r4 = yb @ r5" using a b by (simp_all add: match_year_iff)
  have s2: "r1 = takeWhile is_space r1 @ r2" by (simp add: r2_def)
  have s3: "r2 = sp @ r3" by (simp add: sp_def r3_def)
  have s4: "r3 = takeWhile is_space r3 @ r4" by (simp add: r4_def)
  have s: "s = m @ r5"
    unfolding m using s1 s2 s3 s4 by (metis append.assoc)
  have w1: "list_all is_space (takeWhile is_space r1)"
    by (auto simp: list_all_iff dest: set_takeWhileD)
  have w2: "list_all is_space (takeWhile is_space r3)"
    by (auto simp: list_all_iff dest: set_takeWhileD)
  have ys: "is_year_text ya" "is_year_text yb" using a b by (simp_all add: match_year_iff)
  have sep: "is_separator sp" unfolding sp_def by (rule sep_len_separator[OF n])
  show thesis by (rule that[OF s m ys w1 w2 sep])
qed

lemma range_head_iff: "range_head s \<longleftrightarrow> match_range s \<noteq> None"
proof
  assume "range_head s"
  then obtain ya w1 sp w2 yb post where "s = ya @ w1 @ sp @ w2 @ yb @ post"
      "is_year_text ya" "list_all is_space w1" "is_separator sp" "list_all is_space w2" "is_year_text yb"
    unfolding range_head_def by blast
  then show "match_range s \<noteq> None" using match_range_complete[of ya yb w1 w2 sp post] by simp
next
  assume "match_range s \<noteq> None"
  then obtain m where m: "match_range s = Some m" by blast
  obtain ya w1 sp w2 yb post where h: "s = m @ post" "m = ya @ w1 @ sp @ w2 @ yb"
    "is_year_text ya" "is_year_text yb" "list_all is_space w1" "list_all is_space w2"
    "is_separator sp"
    by (rule match_range_sound[OF m])
  have "s = ya @ w1 @ sp @ w2 @ yb @ post" using h(1,2) by simp
  then show "range_head s" unfolding range_head_def using h(3-7) by blast
qed

lemma first_match_leftmost:
  assumes "f s = Some m" "\<forall>k<length pre. f (drop k (pre @ s)) = None"
  shows "first_match f (pre @ s) = Some m"
  using assms
proof (induction pre)
  case Nil
  then show ?case by (cases s) auto
next
  case (Cons p pre)
  have 0: "f (p # pre @ s) = None" using Cons.prems(2)[rule_format, of 0] by simp
  have "\<forall>k<length pre. f (drop k (pre @ s)) = None"
  proof (intro allI impI)
    fix k assume "k < length pre"
    then show "f (drop k (pre @ s)) = None" using Cons.prems(2)[rule_format, of "Suc k"] by simp
  qed
  then have "first_match f (pre @ s) = Some m" using Cons.IH Cons.prems(1) by blast
  then show ?case using 0 by simp
qed

lemma first_match_None: "first_match f t = None \<longleftrightarrow> (\<forall>k\<le>length t. f (drop k t) = None)"
proof (induction t)
  case Nil
  then show ?case by simp
next
  case (Cons c cs)
  have "(\<forall>k\<le>length (c # cs). f (drop k (c # cs)) = None)
      \<longleftrightarrow> f (c # cs) = None \<and> (\<forall>k\<le>length cs. f (drop k cs) = None)"
  proof
    assume h: "\<forall>k\<le>length (c # cs). f (drop k (c # cs)) = None"
    have "f (c # cs) = None" using h[rule_format, of 0] by simp
    moreover have "\<forall>k\<le>length cs. f (drop k cs) = None"
    proof (intro allI impI)
      fix k assume "k \<le> length cs"
      then show "f (drop k cs) = None" using h[rule_format, of "Suc k"] by simp
    qed
    ultimately show "f (c # cs) = None \<and> (\<forall>k\<le>length cs. f (drop k cs) = None)" by blast
  next
    assume h: "f (c # cs) = None \<and> (\<forall>k\<le>length cs. f (drop k cs) = None)"
    show "\<forall>k\<le>length (c # cs). f (drop k (c # cs)) = None"
    proof (intro allI impI)
      fix k assume k: "k \<le> length (c # cs)"
      show "f (drop k (c # cs)) = None"
      proof (cases k)
        case 0
        then show ?thesis using h by simp
      next
        case (Suc j)
        then show ?thesis using h k by simp
      qed
    qed
  qed
  then show ?case using Cons.IH by (auto split: option.splits)
qed


lemma range_value:
  assumes fm: "first_match match_range (ascii_ws t) = Some (ya @ w1 @ sp @ w2 @ yb)"
    and ya: "is_year_text ya" and w1: "list_all is_space w1" and sp: "is_separator sp"
    and w2: "list_all is_space w2" and yb: "is_year_text yb"
  shows "parseYearsAbsolute t
     = \<lparr>y1 = JNum (min (decimal ya) (decimal yb)), y2 = JNum (max (decimal ya) (decimal yb))\<rparr>"
proof -
  define m where "m = ya @ w1 @ sp @ w2 @ yb"
  have da: "\<forall>c\<in>set ya. is_digit c" and db: "\<forall>c\<in>set yb. is_digit c"
    using year_text_digits ya yb by auto
  have s1: "\<forall>c\<in>set w1. is_space c" and s2: "\<forall>c\<in>set w2. is_space c"
    using w1 w2 by (simp_all add: list_all_iff)
  have spl: "split_sep [] m = [ya @ w1, w2 @ yb]"
    unfolding m_def by (rule split_range[OF da db s1 s2 sp])
  have ta: "trim (ya @ w1) = ya" by (rule trim_right) (use da s1 digit_not_space in auto)
  have tb: "trim (w2 @ yb) = yb" by (rule trim_left) (use db s2 digit_not_space in auto)
  have ps: "map (\<lambda>s. parseInt (trim s)) (split_sep [] m) = [Some (decimal ya), Some (decimal yb)]"
    by (simp add: spl ta tb parseInt_year[OF ya] parseInt_year[OF yb])
  show ?thesis
    unfolding parseYearsAbsolute_def fm m_def[symmetric]
    by (simp add: ps Let_def elem_def num_def math_min_def math_max_def)
qed

lemma range_result:
  assumes aw: "ascii_ws t = t"
    and t: "t = pre @ ya @ w1 @ sp @ w2 @ yb @ post"
    and ya: "is_year_text ya" and w1: "list_all is_space w1" and sp: "is_separator sp"
    and w2: "list_all is_space w2" and yb: "is_year_text yb"
    and left: "\<forall>k<length pre. \<not> range_head (drop k t)"
  shows "parseYearsAbsolute t
     = \<lparr>y1 = JNum (min (decimal ya) (decimal yb)), y2 = JNum (max (decimal ya) (decimal yb))\<rparr>"
proof -
  define m where "m = ya @ w1 @ sp @ w2 @ yb"
  have hit: "match_range (m @ post) = Some m"
    unfolding m_def using match_range_complete[OF ya yb w1 w2 sp, of post] by simp
  have tm: "t = pre @ (m @ post)" by (simp add: t m_def)
  have "\<forall>k<length pre. match_range (drop k (pre @ (m @ post))) = None"
    using left unfolding tm by (simp add: range_head_iff)
  then have "first_match match_range t = Some m"
    unfolding tm using hit by (rule first_match_leftmost[rotated])
  then have fm: "first_match match_range (ascii_ws t) = Some (ya @ w1 @ sp @ w2 @ yb)"
    unfolding aw m_def .
  show ?thesis by (rule range_value[OF fm ya w1 sp w2 yb])
qed

lemma scan_short: "length s < 4 \<Longrightarrow> scan_years s = []"
  by (induction s rule: scan_years.induct) auto

lemma year_head_short: "length s < 4 \<Longrightarrow> \<not> year_head (drop k s) \<and> \<not> year_head s"
  by (simp add: year_head_def is_year_text_def)

lemma year_head_4: "year_head (a # b # c # d # r) = year4 a b c d"
  using is_year_text_iff[of "[a, b, c, d]"] by (simp add: year_head_def)

lemma scan_step_no: "\<not> year_head (a # s) \<Longrightarrow> scan_years (a # s) = scan_years s"
proof (cases "length s < 3")
  case True
  then show ?thesis by (simp add: scan_short)
next
  case False
  then obtain b c d r where s: "s = b # c # d # r"
    by (cases s; cases "tl s"; cases "tl (tl s)") auto
  assume "\<not> year_head (a # s)"
  then show ?thesis unfolding s by (simp add: year_head_4)
qed

lemma scan_skip:
  "\<forall>k<length pre. \<not> year_head (drop k (pre @ s)) \<Longrightarrow> scan_years (pre @ s) = scan_years s"
proof (induction pre)
  case Nil
  then show ?case by simp
next
  case (Cons p pre)
  have 0: "\<not> year_head (p # pre @ s)" using Cons.prems[rule_format, of 0] by simp
  have "\<forall>k<length pre. \<not> year_head (drop k (pre @ s))"
  proof (intro allI impI)
    fix k assume "k < length pre"
    then show "\<not> year_head (drop k (pre @ s))" using Cons.prems[rule_format, of "Suc k"] by simp
  qed
  then have "scan_years (pre @ s) = scan_years s" by (rule Cons.IH)
  then show ?case using scan_step_no[OF 0] by simp
qed

lemma scan_hit: "is_year_text y \<Longrightarrow> scan_years (y @ post) = y # scan_years post"
  by (auto simp: is_year_text_iff)

lemma scan_none: "\<forall>k\<le>length t. \<not> year_head (drop k t) \<Longrightarrow> scan_years t = []"
  using scan_skip[of t "[]"] by simp

lemma year_matches_scan: "year_matches t ys \<Longrightarrow> scan_years t = ys"
proof (induction rule: year_matches.induct)
  case (none t)
  then show ?case by (rule scan_none)
next
  case (step y pre post ys)
  have "scan_years (pre @ y @ post) = scan_years (y @ post)" using step(2) by (rule scan_skip)
  then show ?case using scan_hit[OF step(1)] step.IH by simp
qed

lemma year_matches_cons:
  assumes "\<not> year_head (a # s)" "year_matches s ys"
  shows "year_matches (a # s) ys"
  using assms(2)
proof (cases rule: year_matches.cases)
  case none
  have "\<forall>k\<le>length (a # s). \<not> year_head (drop k (a # s))"
  proof (intro allI impI)
    fix k assume k: "k \<le> length (a # s)"
    show "\<not> year_head (drop k (a # s))"
    proof (cases k)
      case 0
      then show ?thesis using assms(1) by simp
    next
      case (Suc j)
      then show ?thesis using none(2) k by simp
    qed
  qed
  then show ?thesis unfolding none(1) by (rule year_matches.none)
next
  case (step y pre post zs)
  have "\<forall>k<length (a # pre). \<not> year_head (drop k ((a # pre) @ y @ post))"
  proof (intro allI impI)
    fix k assume k: "k < length (a # pre)"
    show "\<not> year_head (drop k ((a # pre) @ y @ post))"
    proof (cases k)
      case 0
      then show ?thesis using assms(1) step(1) by simp
    next
      case (Suc j)
      then show ?thesis using step(4)[rule_format, of j] k by simp
    qed
  qed
  then have "year_matches ((a # pre) @ y @ post) (y # zs)"
    using step(3) step(5) by (intro year_matches.step)
  then show ?thesis unfolding step(1,2) by simp
qed

lemma year_matches_total: "year_matches t (scan_years t)"
proof (induction t rule: length_induct)
  case (1 t)
  show ?case
  proof (cases "year_head t")
    case True
    define y where "y = take 4 t"
    define r where "r = drop 4 t"
    have y: "is_year_text y" using True by (simp add: year_head_def y_def)
    have t: "t = y @ r" by (simp add: y_def r_def)
    have "length y = 4" using y by (simp add: is_year_text_def)
    then have "length r < length t" unfolding t by simp
    then have ih: "year_matches r (scan_years r)" using 1 by blast
    have "year_matches ([] @ y @ r) (y # scan_years r)"
      by (rule year_matches.step[OF y]) (use ih in simp_all)
    then show ?thesis unfolding t using scan_hit[OF y, of r] by simp
  next
    case False
    show ?thesis
    proof (cases t)
      case Nil
      show ?thesis unfolding Nil by (simp, rule year_matches.none) (simp add: year_head_short)
    next
      case (Cons a s)
      have h: "\<not> year_head (a # s)" using False unfolding Cons .
      have "year_matches s (scan_years s)" using 1 Cons by simp
      then have "year_matches (a # s) (scan_years s)" by (rule year_matches_cons[OF h])
      then show ?thesis unfolding Cons using scan_step_no[OF h] by simp
    qed
  qed
qed

lemma scan_years_year: "y \<in> set (scan_years t) \<Longrightarrow> is_year_text y"
  by (induction t rule: scan_years.induct) (auto simp: is_year_text_iff split: if_splits)

lemma fold_math_min: "fold math_min (map Some ns) (Some n) = Some (fold min ns n)"
  by (induction ns arbitrary: n) (auto simp: math_min_def min.commute)

lemma fold_math_max: "fold math_max (map Some ns) (Some n) = Some (fold max ns n)"
  by (induction ns arbitrary: n) (auto simp: math_max_def max.commute)

lemma fold_min_Min: "fold min ns (n::int) = Min (set (n # ns))"
  by (rule Min.set_eq_fold[symmetric])

lemma fold_max_Max': "fold max ns (n::int) = Max (set (n # ns))"
  by (rule Max.set_eq_fold[symmetric])

lemma scan_result:
  assumes r: "first_match match_range (ascii_ws t) = None"
  shows "(scan_years t = [] \<longrightarrow> parseYearsAbsolute t = no_years)
     \<and> (\<forall>y. scan_years t = [y] \<longrightarrow>
          parseYearsAbsolute t = \<lparr>y1 = JNum (decimal y), y2 = JNum (decimal y)\<rparr>)
     \<and> (2 \<le> length (scan_years t) \<longrightarrow>
          parseYearsAbsolute t = \<lparr>y1 = JNum (Min (decimal ` set (scan_years t))),
                                   y2 = JNum (Max (decimal ` set (scan_years t)))\<rparr>)"
proof -
  define ns where "ns = map decimal (scan_years t)"
  have ps: "map parseInt (scan_years t) = map Some ns"
    unfolding ns_def using scan_years_year[of _ t] parseInt_year by simp
  have len: "length ns = length (scan_years t)" by (simp add: ns_def)
  have st: "set ns = decimal ` set (scan_years t)" by (simp add: ns_def)
  show ?thesis
  proof (cases ns)
    case Nil
    then show ?thesis unfolding parseYearsAbsolute_def r ps using len by simp
  next
    case (Cons n ms)
    note outer = Cons
    show ?thesis
    proof (cases ms)
      case Nil
      then obtain y where y: "scan_years t = [y]" "n = decimal y"
        using outer unfolding ns_def by (cases "scan_years t") auto
      have "parseYearsAbsolute t = \<lparr>y1 = JNum n, y2 = JNum n\<rparr>"
        unfolding parseYearsAbsolute_def r ps outer Nil by (simp add: num_def)
      then show ?thesis using y by simp
    next
      case (Cons m ls)
      have "parseYearsAbsolute t
          = \<lparr>y1 = num (fold math_min (map Some ms) (Some n)), y2 = num (fold math_max (map Some ms) (Some n))\<rparr>"
        unfolding parseYearsAbsolute_def r ps outer Cons by simp
      also have "\<dots> = \<lparr>y1 = JNum (Min (set ns)), y2 = JNum (Max (set ns))\<rparr>"
        unfolding fold_math_min fold_math_max fold_min_Min fold_max_Max' outer
        by (simp add: num_def)
      finally have "parseYearsAbsolute t = \<lparr>y1 = JNum (Min (decimal ` set (scan_years t))),
                                   y2 = JNum (Max (decimal ` set (scan_years t)))\<rparr>"
        unfolding st .
      moreover have "2 \<le> length (scan_years t)" using len outer Cons by simp
      moreover then have "scan_years t \<noteq> []" "\<forall>y. scan_years t \<noteq> [y]" by auto
      ultimately show ?thesis by simp
    qed
  qed
qed

lemma first_match_Some: "first_match f t = Some m \<Longrightarrow> \<exists>s. f s = Some m"
  by (induction t) (auto split: option.splits)

lemma absolute_cases:
  "parseYearsAbsolute t = no_years
   \<or> (\<exists>a b. 1900 \<le> a \<and> a \<le> b \<and> b \<le> 2099 \<and> parseYearsAbsolute t = \<lparr>y1 = JNum a, y2 = JNum b\<rparr>)"
proof -
  have R: "\<And>a b. 1900 \<le> a \<Longrightarrow> a \<le> b \<Longrightarrow> b \<le> 2099
      \<Longrightarrow> parseYearsAbsolute t = \<lparr>y1 = JNum a, y2 = JNum b\<rparr> \<Longrightarrow> ?thesis"
    by blast
  show ?thesis
  proof (cases "first_match match_range (ascii_ws t)")
    case (Some m)
    then obtain s where ms: "match_range s = Some m"
      using first_match_Some[of match_range "ascii_ws t" m] by blast
    obtain ya w1 sp w2 yb post where h: "s = m @ post" "m = ya @ w1 @ sp @ w2 @ yb"
      "is_year_text ya" "is_year_text yb" "list_all is_space w1" "list_all is_space w2"
      "is_separator sp"
      by (rule match_range_sound[OF ms])
    have fm: "first_match match_range (ascii_ws t) = Some (ya @ w1 @ sp @ w2 @ yb)"
      unfolding Some h(2) ..
    note v = range_value[OF fm h(3) h(5) h(7) h(6) h(4)]
    have "1900 \<le> min (decimal ya) (decimal yb)"
      using decimal_year[OF h(3)] decimal_year[OF h(4)] by simp
    moreover have "min (decimal ya) (decimal yb) \<le> max (decimal ya) (decimal yb)" by simp
    moreover have "max (decimal ya) (decimal yb) \<le> 2099"
      using decimal_year[OF h(3)] decimal_year[OF h(4)] by simp
    ultimately show ?thesis using v by (rule R)
  next
    case None
    note res = scan_result[OF None]
    have yr: "\<And>y. y \<in> set (scan_years t) \<Longrightarrow> 1900 \<le> decimal y \<and> decimal y \<le> 2099"
      using scan_years_year decimal_year by blast
    show ?thesis
    proof (cases "scan_years t")
      case Nil
      then have "parseYearsAbsolute t = no_years" using res by simp
      then show ?thesis by (rule disjI1)
    next
      case (Cons y ys)
      note outer = Cons
      show ?thesis
      proof (cases ys)
        case Nil
        have p: "parseYearsAbsolute t = \<lparr>y1 = JNum (decimal y), y2 = JNum (decimal y)\<rparr>"
          using res outer Nil by simp
        have b: "1900 \<le> decimal y \<and> decimal y \<le> 2099" using yr[of y] outer by simp
        show ?thesis by (rule R[OF _ _ _ p]) (use b in simp_all)
      next
        case (Cons z zs)
        define D where "D = decimal ` set (scan_years t)"
        have ne: "D \<noteq> {}" "finite D" using outer by (auto simp: D_def)
        have "Min D \<in> D" "Max D \<in> D" using ne by simp_all
        then have b: "1900 \<le> Min D" "Max D \<le> 2099" using yr by (auto simp: D_def)
        have o: "Min D \<le> Max D" using ne by simp
        have "2 \<le> length (scan_years t)" using outer Cons by simp
        then have p: "parseYearsAbsolute t = \<lparr>y1 = JNum (Min D), y2 = JNum (Max D)\<rparr>"
          using res unfolding D_def by simp
        show ?thesis by (rule R[OF b(1) o b(2) p])
      qed
    qed
  qed
qed

lemma absolute_truthy:
  "truthy (y1 (parseYearsAbsolute t)) \<longleftrightarrow> parseYearsAbsolute t \<noteq> no_years"
  using absolute_cases[of t] by (auto simp: no_years_def)

lemma ascii_ws_length: "length (ascii_ws s) \<le> length s \<and> (length (ascii_ws s) = length s \<longrightarrow> ascii_ws s = s)"
  by (induction s rule: ascii_ws.induct) auto

lemma squeeze_length: "length (squeeze p s) \<le> length s"
  by (induction s arbitrary: p) (auto intro: le_SucI)

lemma trim_length: "length (trim s) \<le> length s"
proof -
  have "length (trim s) \<le> length (dropWhile is_space s)"
    unfolding trim_def using length_dropWhile_le[of is_space "rev (dropWhile is_space s)"] by simp
  also have "\<dots> \<le> length s" by (rule length_dropWhile_le)
  finally show ?thesis .
qed

lemma normalized_plain:
  assumes "collapseWs t = t"
  shows "ascii_ws t = t"
proof -
  have "length t = length (trim (squeeze False (ascii_ws t)))"
    using assms by (simp add: collapseWs_def)
  also have "\<dots> \<le> length (squeeze False (ascii_ws t))" by (rule trim_length)
  also have "\<dots> \<le> length (ascii_ws t)" by (rule squeeze_length)
  finally have "length (ascii_ws t) = length t" using ascii_ws_length[of t] by simp
  then show ?thesis using ascii_ws_length[of t] by blast
qed

text \<open>
  C5 as stated fails: the year pattern has no boundary, so four digits inside a longer
  run of digits are a match. The text \<open>id 120195\<close> has no standalone year and no range,
  and the extraction returns 2019 for both bounds.
\<close>

theorem embedded_year_extracted:
  "standalone_years ''id 120195'' = []
   \<and> first_match match_range ''id 120195'' = None
   \<and> parseYearsAbsolute ''id 120195'' = \<lparr>y1 = JNum 2019, y2 = JNum 2019\<rparr>
   \<and> parseYearsAbsolute ''id 120195'' \<noteq> no_years
   \<and> standalone_years ''pin 120195 in 2021'' = [''2021'']
   \<and> parseYearsAbsolute ''pin 120195 in 2021'' = \<lparr>y1 = JNum 2019, y2 = JNum 2021\<rparr>"
  by code_simp

text \<open>
  C5 (as amended). Absolute extraction over a text without Unicode spaces, as every
  normalized text is. If a range starts in the text, a year text, optional whitespace,
  a hyphen, \<open>to\<close> or an en dash, optional whitespace and a year text, then the leftmost such
  range gives the minimum and the maximum of its two years. If no range starts anywhere,
  the year texts found from left to right, standalone or inside a longer run of digits or
  letters, decide: none gives no result, one gives that year twice, two or more give the
  minimum and the maximum of all of them. Every year text writes a number from 1900 to
  2099.
\<close>

theorem parseYearsAbsolute_matches:
  assumes "ascii_ws t = t"
  shows "(\<forall>pre ya w1 sp w2 yb post.
            t = pre @ ya @ w1 @ sp @ w2 @ yb @ post
            \<and> is_year_text ya \<and> list_all is_space w1 \<and> is_separator sp
            \<and> list_all is_space w2 \<and> is_year_text yb
            \<and> (\<forall>k<length pre. \<not> range_head (drop k t)) \<longrightarrow>
            parseYearsAbsolute t
              = \<lparr>y1 = JNum (min (decimal ya) (decimal yb)), y2 = JNum (max (decimal ya) (decimal yb))\<rparr>)
     \<and> (\<exists>ys. year_matches t ys)
     \<and> (\<forall>ys. (\<forall>k\<le>length t. \<not> range_head (drop k t)) \<and> year_matches t ys \<longrightarrow>
            (ys = [] \<longrightarrow> parseYearsAbsolute t = no_years)
          \<and> (\<forall>y. ys = [y] \<longrightarrow> parseYearsAbsolute t = \<lparr>y1 = JNum (decimal y), y2 = JNum (decimal y)\<rparr>)
          \<and> (2 \<le> length ys \<longrightarrow>
               parseYearsAbsolute t
                 = \<lparr>y1 = JNum (Min (decimal ` set ys)), y2 = JNum (Max (decimal ` set ys))\<rparr>))
     \<and> (\<forall>y. is_year_text y \<longrightarrow> 1900 \<le> decimal y \<and> decimal y \<le> 2099)"
proof (intro conjI allI impI)
  fix pre ya w1 sp w2 yb post
  assume h: "t = pre @ ya @ w1 @ sp @ w2 @ yb @ post
            \<and> is_year_text ya \<and> list_all is_space w1 \<and> is_separator sp
            \<and> list_all is_space w2 \<and> is_year_text yb
            \<and> (\<forall>k<length pre. \<not> range_head (drop k t))"
  show "parseYearsAbsolute t
      = \<lparr>y1 = JNum (min (decimal ya) (decimal yb)), y2 = JNum (max (decimal ya) (decimal yb))\<rparr>"
    by (rule range_result[OF assms, of pre ya w1 sp w2 yb post]) (use h in blast)+
next
  show "\<exists>ys. year_matches t ys" using year_matches_total by blast
next
  fix ys
  assume h: "(\<forall>k\<le>length t. \<not> range_head (drop k t)) \<and> year_matches t ys"
  then have "first_match match_range t = None"
    by (simp add: first_match_None range_head_iff)
  then have r: "first_match match_range (ascii_ws t) = None" unfolding assms .
  have ys: "scan_years t = ys" using h year_matches_scan by blast
  note res = scan_result[OF r, unfolded ys]
  show "ys = [] \<Longrightarrow> parseYearsAbsolute t = no_years" using res by blast
  show "\<And>y. ys = [y] \<Longrightarrow> parseYearsAbsolute t = \<lparr>y1 = JNum (decimal y), y2 = JNum (decimal y)\<rparr>"
    using res by blast
  show "2 \<le> length ys \<Longrightarrow> parseYearsAbsolute t
      = \<lparr>y1 = JNum (Min (decimal ` set ys)), y2 = JNum (Max (decimal ` set ys))\<rparr>"
    using res by blast
next
  fix y assume "is_year_text y"
  then show "1900 \<le> decimal y" "decimal y \<le> 2099" using decimal_year by blast+
qed

theorem parseYearsAbsolute_matches_witness:
  "ascii_ws ''rainfall 2004 to 1998'' = ''rainfall 2004 to 1998''
   \<and> parseYearsAbsolute ''rainfall 2004 to 1998'' = \<lparr>y1 = JNum 1998, y2 = JNum 2004\<rparr>
   \<and> year_matches ''pin 120195 in 2021'' [''2019'', ''2021'']
   \<and> parseYearsAbsolute ''pin 120195 in 2021'' = \<lparr>y1 = JNum 2019, y2 = JNum 2021\<rparr>"
proof -
  let ?t = "''rainfall 2004 to 1998''"
  let ?u = "''pin 120195 in 2021''"
  have aw: "ascii_ws ?t = ?t" by code_simp
  have dec: "decimal ''2004'' = 2004" "decimal ''1998'' = 1998"
      "decimal ''2019'' = 2019" "decimal ''2021'' = 2021"
    by (simp_all add: decimal_def digit_val_def)
  have yt: "is_year_text ''2004''" "is_year_text ''1998''"
    by (simp_all add: is_year_text_def is_digit_def)
  have bl: "list_all is_space '' ''" by (simp add: is_space_def)
  have sp: "is_separator ''to''" by (simp add: is_separator_def)
  have "list_all (\<lambda>k. match_range (drop k ?t) = None) [0..<9]" by code_simp
  then have left: "\<forall>k<length ''rainfall ''. \<not> range_head (drop k ?t)"
    by (simp add: list_all_iff range_head_iff)
  have sh: "?t = ''rainfall '' @ ''2004'' @ '' '' @ ''to'' @ '' '' @ ''1998'' @ []" by simp
  have h: "?t = ''rainfall '' @ ''2004'' @ '' '' @ ''to'' @ '' '' @ ''1998'' @ []
      \<and> is_year_text ''2004'' \<and> list_all is_space '' '' \<and> is_separator ''to''
      \<and> list_all is_space '' '' \<and> is_year_text ''1998''
      \<and> (\<forall>k<length ''rainfall ''. \<not> range_head (drop k ?t))"
    by (intro conjI sh yt bl sp left)
  have "parseYearsAbsolute ?t
      = \<lparr>y1 = JNum (min (decimal ''2004'') (decimal ''1998'')),
         y2 = JNum (max (decimal ''2004'') (decimal ''1998''))\<rparr>"
    by (rule parseYearsAbsolute_matches[OF aw, THEN conjunct1, rule_format, OF h])
  then have 1: "parseYearsAbsolute ?t = \<lparr>y1 = JNum 1998, y2 = JNum 2004\<rparr>"
    unfolding dec by simp
  have aw': "ascii_ws ?u = ?u" by code_simp
  have "first_match match_range ?u = None" by code_simp
  then have nr: "\<forall>k\<le>length ?u. \<not> range_head (drop k ?u)"
    unfolding first_match_None by (simp only: range_head_iff not_not)
  have sc: "scan_years ?u = [''2019'', ''2021'']" by code_simp
  have ym: "year_matches ?u [''2019'', ''2021'']"
    using year_matches_total[of ?u] unfolding sc .
  have h2: "(\<forall>k\<le>length ?u. \<not> range_head (drop k ?u)) \<and> year_matches ?u [''2019'', ''2021'']"
    using nr ym by (rule conjI)
  have len: "2 \<le> length [''2019'', ''2021'']" by simp
  have "parseYearsAbsolute ?u
      = \<lparr>y1 = JNum (Min (decimal ` set [''2019'', ''2021''])),
         y2 = JNum (Max (decimal ` set [''2019'', ''2021'']))\<rparr>"
    by (rule parseYearsAbsolute_matches[OF aw', THEN conjunct2, THEN conjunct2, THEN conjunct1,
        rule_format, OF h2, THEN conjunct2, THEN conjunct2, rule_format, OF len])
  then have 2: "parseYearsAbsolute ?u = \<lparr>y1 = JNum 2019, y2 = JNum 2021\<rparr>"
    by (simp add: dec)
  from aw 1 ym 2 show ?thesis by (intro conjI)
qed

subsection \<open>CategoryExtractor\<close>

text \<open>
  C3. The category function checks its tiers in the order over-exploited, critical,
  semi-critical, safe. The trigger \<open>critical\<close> is part of \<open>semi-critical\<close> and is checked
  first, so a question about semi-critical districts is classified \<open>Critical\<close>: the shorter
  trigger preempts the more specific one.
\<close>

theorem category_of_semi_critical:
  "category_of ''list semi-critical districts in Gujarat'' = Some ''Critical''"
  by code_simp

end
